theory Spec2Isabelle
  imports Complex_Main "HOL-Library.AList" "HOL-Library.Char_ord" "HOL-Library.List_Lexorder"
begin

section \<open>Values, errors and the Python built-ins the cleaner calls\<close>

text \<open>
  A cell of a pandas table is a string, a number or a missing value. Numbers are kept as
  exact rationals together with the two infinities and \<open>NaN\<close>, which is also how pandas
  marks a missing cell; binary rounding and overflow of \<open>float\<close> are not part of the model.
\<close>

datatype cell = Str string | Num rat | PInf | NInf | NaN

datatype error = KeyError | ValueError | AttributeError | IndexError | TypeError | MergeError

definition bindE :: "error + 'a \<Rightarrow> ('a \<Rightarrow> error + 'b) \<Rightarrow> error + 'b" where
  "bindE m f = (case m of Inl e \<Rightarrow> Inl e | Inr x \<Rightarrow> f x)"

text \<open>\<open>s.split(c)\<close> for a one-character separator: never empty, keeps empty pieces.\<close>

fun str_split :: "char \<Rightarrow> string \<Rightarrow> string list" where
  "str_split c [] = [[]]"
| "str_split c (x # xs) =
     (if x = c then [] # str_split c xs
      else (case str_split c xs of [] \<Rightarrow> [[x]] | w # ws \<Rightarrow> (x # w) # ws))"

text \<open>\<open>s.replace(c, '')\<close> for a one-character pattern.\<close>

definition str_remove :: "char \<Rightarrow> string \<Rightarrow> string" where
  "str_remove c s = filter (\<lambda>x. x \<noteq> c) s"

text \<open>Subscripting a list with a non-negative literal index.\<close>

definition list_get :: "'a list \<Rightarrow> nat \<Rightarrow> error + 'a" where
  "list_get xs i = (if i < length xs then Inr (xs ! i) else Inl IndexError)"

text \<open>
  The characters \<open>int\<close> and \<open>float\<close> strip from both ends of their argument
  (ASCII range: tab, line feed, vertical tab, form feed, carriage return, the four
  separators 28 to 31 and the space).
\<close>

definition is_space :: "char \<Rightarrow> bool" where
  "is_space c = (of_char c \<in> {9, 10, 11, 12, 13, 28, 29, 30, 31, 32 :: nat})"

definition str_strip :: "string \<Rightarrow> string" where
  "str_strip s = rev (dropWhile is_space (rev (dropWhile is_space s)))"

definition is_digit :: "char \<Rightarrow> bool" where
  "is_digit c = (48 \<le> (of_char c :: nat) \<and> (of_char c :: nat) \<le> 57)"

definition digit_val :: "char \<Rightarrow> nat" where
  "digit_val c = of_char c - 48"

text \<open>A run of digits in which single underscores may separate digits.\<close>

fun digitpart_ok :: "string \<Rightarrow> bool" where
  "digitpart_ok [] = False"
| "digitpart_ok [c] = is_digit c"
| "digitpart_ok (c # d # cs) =
     (is_digit c \<and> (if d = CHR ''_'' then digitpart_ok cs else digitpart_ok (d # cs)))"

definition digits_value :: "string \<Rightarrow> nat" where
  "digits_value s = foldl (\<lambda>a c. 10 * a + digit_val c) 0 (filter is_digit s)"

text \<open>An optional sign in front of the rest: the sign is \<open>True\<close> for a minus.\<close>

fun split_sign :: "string \<Rightarrow> bool \<times> string" where
  "split_sign [] = (False, [])"
| "split_sign (c # cs) =
     (if c = CHR ''-'' then (True, cs) else if c = CHR ''+'' then (False, cs)
      else (False, c # cs))"

text \<open>\<open>int(s)\<close> for a string in base ten: \<open>ValueError\<close> on anything else.\<close>

definition py_int :: "string \<Rightarrow> error + int" where
  "py_int s =
     (let (neg, body) = split_sign (str_strip s) in
      if digitpart_ok body
      then Inr (if neg then - int (digits_value body) else int (digits_value body))
      else Inl ValueError)"

definition lower :: "char \<Rightarrow> char" where
  "lower c = (if 65 \<le> (of_char c :: nat) \<and> (of_char c :: nat) \<le> 90
              then char_of (of_char c + 32 :: nat) else c)"

text \<open>
  The unsigned decimal part of a float literal: digits, an optional point and digits,
  at least one digit on one side of the point.
\<close>

definition decimal_value :: "string \<Rightarrow> rat option" where
  "decimal_value s =
     (case str_split CHR ''.'' s of
        [i] \<Rightarrow> if digitpart_ok i then Some (of_nat (digits_value i)) else None
      | [i, f] \<Rightarrow>
          if (i = [] \<or> digitpart_ok i) \<and> (f = [] \<or> digitpart_ok f) \<and> \<not> (i = [] \<and> f = [])
          then Some (of_nat (digits_value i)
                     + of_nat (digits_value f) / 10 ^ length (filter is_digit f))
          else None
      | _ \<Rightarrow> None)"

definition exponent_value :: "string \<Rightarrow> int option" where
  "exponent_value s =
     (let (neg, body) = split_sign s in
      if digitpart_ok body
      then Some (if neg then - int (digits_value body) else int (digits_value body))
      else None)"

definition scale10 :: "rat \<Rightarrow> int \<Rightarrow> rat" where
  "scale10 x e = (if 0 \<le> e then x * 10 ^ nat e else x / 10 ^ nat (- e))"

definition float_number :: "string \<Rightarrow> rat option" where
  "float_number s =
     (case str_split CHR ''e'' (map lower s) of
        [m] \<Rightarrow> decimal_value m
      | [m, e] \<Rightarrow>
          (case (decimal_value m, exponent_value e) of
             (Some x, Some k) \<Rightarrow> Some (scale10 x k)
           | _ \<Rightarrow> None)
      | _ \<Rightarrow> None)"

text \<open>
  \<open>float(s)\<close>: surrounding white space, a sign, then \<open>inf\<close>, \<open>infinity\<close> or \<open>nan\<close> in
  any case, or a decimal number with an optional exponent; \<open>ValueError\<close> otherwise.
\<close>

definition py_float :: "string \<Rightarrow> error + cell" where
  "py_float s =
     (let (neg, body) = split_sign (str_strip s); low = map lower body in
      if low = ''inf'' \<or> low = ''infinity'' then Inr (if neg then NInf else PInf)
      else if low = ''nan'' then Inr NaN
      else (case float_number body of
              None \<Rightarrow> Inl ValueError
            | Some x \<Rightarrow> Inr (Num (if neg then - x else x))))"


section \<open>Tables\<close>

text \<open>
  A pandas \<open>DataFrame\<close> is an ordered list of named columns, each a list of cells; the row
  labels are not modelled, rows are addressed by position. The columns of a table are
  equally long and their labels differ; the number of rows is the length of the first
  column. A row handed to a function by \<open>df.apply(f, axis=1)\<close> is a lookup from column
  names to cells; on a table without rows \<open>apply\<close> gives the empty column.
\<close>

type_synonym dataframe = "(string \<times> cell list) list"

type_synonym row = "string \<Rightarrow> cell option"

definition nrows :: "dataframe \<Rightarrow> nat" where
  "nrows df = (case df of [] \<Rightarrow> 0 | (_, c) # _ \<Rightarrow> length c)"

definition row_at :: "dataframe \<Rightarrow> nat \<Rightarrow> row" where
  "row_at df i = (\<lambda>name. map_option (\<lambda>c. c ! i) (map_of df name))"

text \<open>\<open>row[name]\<close> and \<open>df[name]\<close>: \<open>KeyError\<close> when there is no such column.\<close>

definition getitem :: "row \<Rightarrow> string \<Rightarrow> error + cell" where
  "getitem r name = (case r name of None \<Rightarrow> Inl KeyError | Some v \<Rightarrow> Inr v)"

definition getcol :: "dataframe \<Rightarrow> string \<Rightarrow> error + cell list" where
  "getcol df name = (case map_of df name of None \<Rightarrow> Inl KeyError | Some c \<Rightarrow> Inr c)"

text \<open>The receiver of a string method: a cell that is not a string has no such attribute.\<close>

definition as_str :: "cell \<Rightarrow> error + string" where
  "as_str c = (case c of Str s \<Rightarrow> Inr s | _ \<Rightarrow> Inl AttributeError)"

text \<open>The first error of a sequence of results is the one raised.\<close>

fun collect :: "(error + 'a) list \<Rightarrow> error + 'a list" where
  "collect [] = Inr []"
| "collect (x # xs) = bindE x (\<lambda>v. bindE (collect xs) (\<lambda>vs. Inr (v # vs)))"

definition df_apply :: "(row \<Rightarrow> error + cell) \<Rightarrow> dataframe \<Rightarrow> error + cell list" where
  "df_apply f df = collect (map (\<lambda>i. f (row_at df i)) [0..<nrows df])"

text \<open>\<open>df[name] = values\<close>: replaces the column in place or appends a new last column.\<close>

definition set_column :: "string \<Rightarrow> cell list \<Rightarrow> dataframe \<Rightarrow> dataframe" where
  "set_column name vals df = AList.update name vals df"

text \<open>\<open>Series.unique()\<close>: the distinct values in order of first appearance.\<close>

definition unique :: "'a list \<Rightarrow> 'a list" where
  "unique xs = foldl (\<lambda>seen x. if x \<in> set seen then seen else seen @ [x]) [] xs"

section \<open>Helper functions for dataset cleaning\<close>

definition get_month_from_date :: "row \<Rightarrow> error + cell" where
  "get_month_from_date r =
     bindE (getitem r ''date'') (\<lambda>d.
     bindE (as_str d) (\<lambda>s.
     bindE (list_get (str_split CHR ''-'' s) 1) (\<lambda>p.
     bindE (py_int p) (\<lambda>n. Inr (Num (of_int n))))))"

definition get_year_from_date :: "row \<Rightarrow> error + cell" where
  "get_year_from_date r =
     bindE (getitem r ''date'') (\<lambda>d.
     bindE (as_str d) (\<lambda>s.
     bindE (list_get (str_split CHR ''-'' s) 0) (\<lambda>p.
     bindE (py_int p) (\<lambda>n. Inr (Num (of_int n))))))"

text \<open>The \<open>try\<close> body of \<open>get_host_since_year\<close>, and the function with its bare \<open>except\<close>.\<close>

definition host_since_body :: "row \<Rightarrow> error + cell" where
  "host_since_body r =
     bindE (getitem r ''host_since'') (\<lambda>d.
     bindE (as_str d) (\<lambda>s.
     bindE (list_get (str_split CHR ''-'' s) 0) (\<lambda>p.
     bindE (py_int p) (\<lambda>n. Inr (Num (of_int n))))))"

definition get_host_since_year :: "row \<Rightarrow> cell" where
  "get_host_since_year r = (case host_since_body r of Inl _ \<Rightarrow> NaN | Inr v \<Rightarrow> v)"

text \<open>
  The chain of \<open>replace\<close> calls shared by \<open>get_val_from_list\<close> and
  \<open>split_list_into_columns\<close>, followed by \<open>split(',')\<close>: the pieces of a list-valued cell.
\<close>

definition strip_brackets :: "string \<Rightarrow> string" where
  "strip_brackets s =
     str_remove CHR ''}'' (str_remove CHR ''{'' (str_remove (CHR 0x22) (str_remove (CHR 0x27)
       (str_remove CHR '']'' (str_remove CHR ''['' s)))))"

definition list_items :: "string \<Rightarrow> string list" where
  "list_items s = str_split CHR '','' (strip_brackets s)"

definition val_from_list_body :: "row \<Rightarrow> string \<Rightarrow> string \<Rightarrow> error + cell" where
  "val_from_list_body r column_name v =
     bindE (getitem r column_name) (\<lambda>c.
     bindE (as_str c) (\<lambda>s.
     Inr (if v \<in> set (list_items s) then Num 1 else Num 0)))"

definition get_val_from_list :: "row \<Rightarrow> string \<Rightarrow> string \<Rightarrow> cell" where
  "get_val_from_list r column_name v =
     (case val_from_list_body r column_name v of Inl _ \<Rightarrow> Num 0 | Inr x \<Rightarrow> x)"

text \<open>
  The dictionary \<open>value_dict\<close> keeps its keys in insertion order. A value seen for the first
  time is entered with 0, every later occurrence adds 1.
\<close>

definition count_value :: "(string \<times> int) list \<Rightarrow> string \<Rightarrow> (string \<times> int) list" where
  "count_value d v =
     (if v \<in> fst ` set d then map (\<lambda>(k, n). if k = v then (k, n + 1) else (k, n)) d
      else d @ [(v, 0)])"

fun build_value_dict :: "(string \<times> int) list \<Rightarrow> cell list \<Rightarrow> error + (string \<times> int) list" where
  "build_value_dict d [] = Inr d"
| "build_value_dict d (u # us) =
     bindE (as_str u) (\<lambda>s. build_value_dict (foldl count_value d (list_items s)) us)"

text \<open>
  The dictionary once the loop has met the occurrences \<open>occs\<close>: each distinct item, in
  the order of first encounter, with one less than the number of its occurrences.
\<close>

definition counts_of :: "string list \<Rightarrow> (string \<times> int) list" where
  "counts_of occs = map (\<lambda>x. (x, int (count_list occs x) - 1)) (unique occs)"

text \<open>\<open>sorted(items, key=count, reverse=True)\<close>: stable, largest count first.\<close>

definition values_sorted :: "(string \<times> int) list \<Rightarrow> (string \<times> int) list" where
  "values_sorted d = sort_key (\<lambda>x. - snd x) d"

text \<open>\<open>df.apply(lambda row: get_val_from_list(row, column_name, value[0]), axis=1)\<close>.\<close>

definition dummy_column :: "string \<Rightarrow> dataframe \<Rightarrow> string \<Rightarrow> cell list" where
  "dummy_column column_name df v =
     map (\<lambda>i. get_val_from_list (row_at df i) column_name v) [0..<nrows df]"

definition add_dummy :: "string \<Rightarrow> dataframe \<Rightarrow> string \<Rightarrow> dataframe" where
  "add_dummy column_name df v =
     set_column (column_name @ ''_'' @ v) (dummy_column column_name df v) df"

definition top_values :: "dataframe \<Rightarrow> string \<Rightarrow> nat \<Rightarrow> error + string list" where
  "top_values df column_name max_dummies_num =
     bindE (getcol df column_name) (\<lambda>col.
     bindE (build_value_dict [] (unique col)) (\<lambda>value_dict.
     Inr (map fst (take max_dummies_num (values_sorted value_dict)))))"

text \<open>
  \<open>split_list_into_columns(df, column_name, max_dummies_num)\<close>, with the table as the last
  argument and the changed table as the result. Nothing is assigned before the dictionary
  is complete, and the assignments cannot raise.
\<close>

definition split_list_into_columns :: "string \<Rightarrow> nat \<Rightarrow> dataframe \<Rightarrow> error + dataframe" where
  "split_list_into_columns column_name max_dummies_num df =
     bindE (top_values df column_name max_dummies_num) (\<lambda>vs.
     Inr (foldl (add_dummy column_name) df vs))"

definition get_extra_people_fee :: "row \<Rightarrow> error + cell" where
  "get_extra_people_fee r =
     bindE (getitem r ''extra_people'') (\<lambda>c.
     Inr (if c = Str ''$0.00'' then Num 0 else Num 1))"

section \<open>The pandas operations used by the cleaner\<close>

text \<open>\<open>rename(index=str, columns={'id': 'listing_id'})\<close>: a new table with the label changed.\<close>

definition rename_id :: "dataframe \<Rightarrow> dataframe" where
  "rename_id df = map (\<lambda>(k, c). (if k = ''id'' then ''listing_id'' else k, c)) df"

text \<open>
  \<open>pd.merge(left, right, on=key)\<close>: the inner join. Every pair of a left and a right row
  with equal keys gives one row, in the order of the left rows and, for one left row, of the
  right rows; keys are equal when the cells are. A label other than the key that both tables have gets the suffix \<open>_x\<close> on the
  left and \<open>_y\<close> on the right. A key label that is absent is a \<open>KeyError\<close>, one that
  occurs twice a \<open>ValueError\<close>; suffixes that produce a duplicate label are a \<open>MergeError\<close>.
\<close>

definition join_pairs :: "cell list \<Rightarrow> cell list \<Rightarrow> (nat \<times> nat) list" where
  "join_pairs lk rk =
     concat (map (\<lambda>i. map (\<lambda>j. (i, j)) (filter (\<lambda>j. lk ! i = rk ! j) [0..<length rk]))
                 [0..<length lk])"

definition merge :: "string \<Rightarrow> dataframe \<Rightarrow> dataframe \<Rightarrow> error + dataframe" where
  "merge key left right =
     bindE (getcol left key) (\<lambda>lk.
     bindE (getcol right key) (\<lambda>rk.
     if count_list (map fst left) key \<noteq> 1 \<or> count_list (map fst right) key \<noteq> 1
     then Inl ValueError
     else
       let pairs = join_pairs lk rk;
           lpart = map (\<lambda>(k, c). (if k \<noteq> key \<and> k \<in> fst ` set right then k @ ''_x'' else k,
                                  map (\<lambda>(i, j). c ! i) pairs)) left;
           rpart = map (\<lambda>(k, c). (if k \<in> fst ` set left then k @ ''_y'' else k,
                                  map (\<lambda>(i, j). c ! j) pairs))
                       (filter (\<lambda>(k, c). k \<noteq> key) right)
       in if distinct (map fst (lpart @ rpart)) then Inr (lpart @ rpart) else Inl MergeError))"

text \<open>\<open>df.drop(columns=names)\<close>: a new table; \<open>KeyError\<close> when a label is not there.\<close>

definition drop_columns :: "string list \<Rightarrow> dataframe \<Rightarrow> error + dataframe" where
  "drop_columns names df =
     (if list_all (\<lambda>n. n \<in> fst ` set df) names
      then Inr (filter (\<lambda>(k, c). k \<notin> set names) df)
      else Inl KeyError)"

text \<open>\<open>df[name] = df.apply(lambda row: f(row), axis=1)\<close>.\<close>

definition assign_apply :: "string \<Rightarrow> (row \<Rightarrow> error + cell) \<Rightarrow> dataframe \<Rightarrow> error + dataframe" where
  "assign_apply name f df = bindE (df_apply f df) (\<lambda>vals. Inr (set_column name vals df))"

text \<open>\<open>df.dropna(subset=[name])\<close>: a new table with the rows whose cell is not missing.\<close>

definition keep_cells :: "bool list \<Rightarrow> 'a list \<Rightarrow> 'a list" where
  "keep_cells keep c = map snd (filter fst (zip keep c))"

definition select_rows :: "bool list \<Rightarrow> dataframe \<Rightarrow> dataframe" where
  "select_rows keep df = map (\<lambda>(k, c). (k, keep_cells keep c)) df"

definition dropna_subset :: "string \<Rightarrow> dataframe \<Rightarrow> error + dataframe" where
  "dropna_subset name df =
     bindE (getcol df name) (\<lambda>col. Inr (select_rows (map (\<lambda>c. c \<noteq> NaN) col) df))"

text \<open>
  \<open>df[name] = df[src].astype(str)\<close> followed by
  \<open>df[name] = df[name].str.replace(pattern, '').astype('float')\<close>, taken together, for a
  pattern that deletes the characters \<open>chars\<close>: the regular expression \<open>[$, ]\<close> deletes
  the dollar sign, the comma and the space, the pattern \<open>%\<close> the percent sign. A cell
  that is already a number is written out by \<open>astype(str)\<close> without any of these
  characters and reads back as itself; a missing cell is written \<open>nan\<close> and reads back
  as missing. \<open>astype('float')\<close> raises \<open>ValueError\<close> at the first string that
  \<open>float\<close> rejects.
\<close>

definition as_float_without :: "string \<Rightarrow> cell \<Rightarrow> error + cell" where
  "as_float_without chars c =
     (case c of Str s \<Rightarrow> py_float (filter (\<lambda>x. x \<notin> set chars) s) | _ \<Rightarrow> Inr c)"

definition to_float_column :: "string \<Rightarrow> string \<Rightarrow> string \<Rightarrow> dataframe \<Rightarrow> error + dataframe" where
  "to_float_column name src chars df =
     bindE (getcol df src) (\<lambda>col.
     bindE (collect (map (as_float_without chars) col)) (\<lambda>vals.
     Inr (set_column name vals df)))"

text \<open>
  \<open>Series.mean()\<close> skips missing cells and is missing when nothing is left, or when both
  infinities are summed; a string in the column is a \<open>TypeError\<close>.
\<close>

definition is_Str :: "cell \<Rightarrow> bool" where
  "is_Str c = (case c of Str _ \<Rightarrow> True | _ \<Rightarrow> False)"

definition num_of :: "cell \<Rightarrow> rat" where
  "num_of c = (case c of Num x \<Rightarrow> x | _ \<Rightarrow> 0)"

definition mean :: "cell list \<Rightarrow> error + cell" where
  "mean col =
     (let vals = filter (\<lambda>c. c \<noteq> NaN) col in
      if list_ex is_Str vals then Inl TypeError
      else if vals = [] then Inr NaN
      else if PInf \<in> set vals \<and> NInf \<in> set vals then Inr NaN
      else if PInf \<in> set vals then Inr PInf
      else if NInf \<in> set vals then Inr NInf
      else Inr (Num (sum_list (map num_of vals) / of_nat (length vals))))"

definition fillna :: "cell \<Rightarrow> cell list \<Rightarrow> cell list" where
  "fillna v col = map (\<lambda>c. if c = NaN then v else c) col"

text \<open>
  \<open>df[name].fillna(df[name].mean(), inplace=True)\<close>: the column of \<open>df\<close> itself is
  filled, as in the pandas the notebook was written for.
\<close>

definition fillna_mean :: "string \<Rightarrow> dataframe \<Rightarrow> error + dataframe" where
  "fillna_mean name df =
     bindE (getcol df name) (\<lambda>col.
     bindE (mean col) (\<lambda>m.
     Inr (set_column name (fillna m col) df)))"

text \<open>
  \<open>Series.mode()[0]\<close>: the most frequent of the cells that are not missing, the smallest
  of them when several are equally frequent; subscripting the empty result of a column
  without such a cell raises. Numbers are ordered by value and strings lexicographically;
  a column that mixes the two cannot be sorted by pandas, which is not modelled beyond
  returning one of the most frequent cells.
\<close>

fun cell_less :: "cell \<Rightarrow> cell \<Rightarrow> bool" where
  "cell_less (Num a) (Num b) = (a < b)"
| "cell_less NInf (Num b) = True"
| "cell_less NInf PInf = True"
| "cell_less (Num a) PInf = True"
| "cell_less (Str a) (Str b) = (a < b)"
| "cell_less _ _ = False"

definition mode0 :: "cell list \<Rightarrow> error + cell" where
  "mode0 col =
     (let vals = filter (\<lambda>c. c \<noteq> NaN) col;
          top = foldl max 0 (map (count_list vals) vals);
          cands = filter (\<lambda>v. count_list vals v = top) (unique vals)
      in case cands of
           [] \<Rightarrow> Inl KeyError
         | c # cs \<Rightarrow> Inr (foldl (\<lambda>m x. if cell_less x m then x else m) c cs))"

text \<open>\<open>df[name] = df[name].fillna(df[name].mode()[0])\<close>.\<close>

definition fillna_mode :: "string \<Rightarrow> dataframe \<Rightarrow> error + dataframe" where
  "fillna_mode name df =
     bindE (getcol df name) (\<lambda>col.
     bindE (mode0 col) (\<lambda>m.
     Inr (set_column name (fillna m col) df)))"

text \<open>
  \<open>df['host_response_rate_buckets'] = pd.qcut(df['host_response_rate_num'], 5, labels=False,
  duplicates='drop')\<close>. The quantile cut is a library routine on floating-point quantiles;
  it is a parameter \<open>qcut\<close> of the model, from a column to the column of bucket codes.
\<close>

definition assign_buckets :: "(cell list \<Rightarrow> error + cell list) \<Rightarrow> dataframe \<Rightarrow> error + dataframe" where
  "assign_buckets qcut df =
     bindE (getcol df ''host_response_rate_num'') (\<lambda>col.
     bindE (qcut col) (\<lambda>buckets.
     if length buckets = length col
     then Inr (set_column ''host_response_rate_buckets'' buckets df)
     else Inl ValueError))"

section \<open>Main dataset cleaning function\<close>

definition columns_to_drop :: "string list" where
  "columns_to_drop =
     [''available'', ''host_id'', ''host_location'', ''host_acceptance_rate'', ''host_neighbourhood'',
      ''host_total_listings_count'', ''weekly_price'', ''monthly_price'',
      ''security_deposit'', ''cleaning_fee'', ''calendar_updated'',
      ''listing_url'', ''last_scraped'', ''scrape_id'', ''name'', ''summary'', ''space'', ''description'',
      ''experiences_offered'', ''street'', ''neighbourhood'', ''neighbourhood_cleansed'', ''zipcode'',
      ''neighborhood_overview'', ''notes'', ''transit'', ''thumbnail_url'', ''medium_url'', ''picture_url'',
      ''xl_picture_url'', ''host_url'', ''host_name'', ''host_about'', ''host_thumbnail_url'', ''host_picture_url'',
      ''city'', ''state'', ''market'', ''smart_location'', ''country_code'', ''country'', ''latitude'', ''longitude'',
      ''is_location_exact'', ''square_feet'', ''has_availability'', ''availability_30'',
      ''availability_60'', ''availability_90'', ''availability_365'', ''calendar_last_scraped'',
      ''first_review'', ''last_review'', ''requires_license'', ''license'', ''jurisdiction_names'', ''price_y'',
      ''reviews_per_month'']"

definition review_scores_columns :: "string list" where
  "review_scores_columns =
     [''review_scores_rating'', ''review_scores_accuracy'', ''review_scores_cleanliness'',
      ''review_scores_checkin'', ''review_scores_communication'', ''review_scores_location'',
      ''review_scores_value'']"

text \<open>
  Tables are objects: a heap is the list of the tables allocated so far and a reference is
  a position in it. Every statement of \<open>clean_dataset\<close> after the merge either binds
  \<open>df\<close> to a new table computed from the current one (\<open>Fresh\<close>) or changes the current
  table in place (\<open>InPlace\<close>). A statement that raises has not changed its table; the
  one thing left out is that, when the float conversion of the price or of the response
  rate raises, the new table already holds the column of strings assigned just before.
\<close>

type_synonym heap = "dataframe list"

datatype effect = Fresh | InPlace

type_synonym stage = "effect \<times> (dataframe \<Rightarrow> error + dataframe)"

definition run_stage :: "stage \<Rightarrow> nat \<Rightarrow> heap \<Rightarrow> (error + nat) \<times> heap" where
  "run_stage st df h =
     (case snd st (h ! df) of
        Inl e \<Rightarrow> (Inl e, h)
      | Inr d \<Rightarrow> (case fst st of
                    Fresh \<Rightarrow> (Inr (length h), h @ [d])
                  | InPlace \<Rightarrow> (Inr df, h[df := d])))"

fun run_stages :: "stage list \<Rightarrow> nat \<Rightarrow> heap \<Rightarrow> (error + nat) \<times> heap" where
  "run_stages [] df h = (Inr df, h)"
| "run_stages (st # sts) df h =
     (case run_stage st df h of
        (Inl e, h') \<Rightarrow> (Inl e, h')
      | (Inr df', h') \<Rightarrow> run_stages sts df' h')"

text \<open>
  The statements of \<open>clean_dataset\<close> after the merge, block by block as the source
  comments divide them.
\<close>

definition drop_irrelevant_cols :: "stage list" where
  "drop_irrelevant_cols = [(Fresh, drop_columns columns_to_drop)]"

definition convert_date :: "stage list" where
  "convert_date =
     [(InPlace, assign_apply ''month'' get_month_from_date),
      (InPlace, assign_apply ''year'' get_year_from_date),
      (Fresh, drop_columns [''date''])]"

definition remove_missing_price :: "stage list" where
  "remove_missing_price = [(Fresh, dropna_subset ''price_x'')]"

definition convert_price :: "stage list" where
  "convert_price =
     [(InPlace, to_float_column ''price'' ''price_x'' ''$, ''),
      (Fresh, drop_columns [''price_x''])]"

definition convert_host_since :: "stage list" where
  "convert_host_since =
     [(InPlace, assign_apply ''host_since_year'' (\<lambda>r. Inr (get_host_since_year r))),
      (InPlace, fillna_mean ''host_since_year''),
      (Fresh, drop_columns [''host_since''])]"

definition convert_host_response_rate :: "(cell list \<Rightarrow> error + cell list) \<Rightarrow> stage list" where
  "convert_host_response_rate qcut =
     [(InPlace, to_float_column ''host_response_rate_num'' ''host_response_rate'' ''%''),
      (InPlace, fillna_mean ''host_response_rate_num''),
      (InPlace, assign_buckets qcut),
      (Fresh, drop_columns [''host_response_rate'', ''host_response_rate_num''])]"

definition fill_host_listings_count :: "stage list" where
  "fill_host_listings_count = [(InPlace, fillna_mean ''host_listings_count'')]"

definition split_host_verifications :: "stage list" where
  "split_host_verifications =
     [(InPlace, split_list_into_columns ''host_verifications'' 10),
      (Fresh, drop_columns [''host_verifications''])]"

definition fill_rooms_with_mode :: "stage list" where
  "fill_rooms_with_mode =
     [(InPlace, fillna_mode ''bathrooms''),
      (InPlace, fillna_mode ''bedrooms''),
      (InPlace, fillna_mode ''beds'')]"

definition split_amenities :: "stage list" where
  "split_amenities =
     [(InPlace, split_list_into_columns ''amenities'' 10),
      (Fresh, drop_columns [''amenities''])]"

definition extra_people_binary :: "stage list" where
  "extra_people_binary =
     [(InPlace, assign_apply ''extra_people_fee'' get_extra_people_fee),
      (Fresh, drop_columns [''extra_people''])]"

definition fill_review_scores :: "stage list" where
  "fill_review_scores = map (\<lambda>column. (InPlace, fillna_mean column)) review_scores_columns"

definition clean_stages :: "(cell list \<Rightarrow> error + cell list) \<Rightarrow> stage list" where
  "clean_stages qcut =
     drop_irrelevant_cols @ convert_date @ remove_missing_price @ convert_price
     @ convert_host_since @ convert_host_response_rate qcut @ fill_host_listings_count
     @ split_host_verifications @ fill_rooms_with_mode @ split_amenities
     @ extra_people_binary @ fill_review_scores"

text \<open>
  \<open>clean_dataset(listings_df, calendar_df)\<close> on references into a heap: the result is the
  reference returned (or the error raised) and the heap afterwards.
\<close>

definition clean_dataset ::
  "(cell list \<Rightarrow> error + cell list) \<Rightarrow> nat \<Rightarrow> nat \<Rightarrow> heap \<Rightarrow> (error + nat) \<times> heap" where
  "clean_dataset qcut listings_df calendar_df h =
     (case run_stage (Fresh, \<lambda>d. Inr (rename_id d)) listings_df h of
        (Inl e, h1) \<Rightarrow> (Inl e, h1)
      | (Inr listings_df', h1) \<Rightarrow>
          (case merge ''listing_id'' (h1 ! calendar_df) (h1 ! listings_df') of
             Inl e \<Rightarrow> (Inl e, h1)
           | Inr d \<Rightarrow> run_stages (clean_stages qcut) (length h1) (h1 @ [d])))"


text \<open>
  The table \<open>clean_dataset\<close> returns, as a function of the two input tables alone: the
  stages applied one after the other to the merged table.
\<close>

fun run_pure :: "stage list \<Rightarrow> dataframe \<Rightarrow> error + dataframe" where
  "run_pure [] d = Inr d"
| "run_pure (st # sts) d = bindE (snd st d) (run_pure sts)"

definition joined :: "dataframe \<Rightarrow> dataframe \<Rightarrow> error + dataframe" where
  "joined listings calendar = merge ''listing_id'' calendar (rename_id listings)"

definition clean_table ::
  "(cell list \<Rightarrow> error + cell list) \<Rightarrow> dataframe \<Rightarrow> dataframe \<Rightarrow> error + dataframe" where
  "clean_table qcut listings calendar =
     bindE (joined listings calendar) (run_pure (clean_stages qcut))"


text \<open>The table that the reference returned by \<open>clean_dataset\<close> denotes.\<close>

definition cleaned ::
  "(cell list \<Rightarrow> error + cell list) \<Rightarrow> nat \<Rightarrow> nat \<Rightarrow> heap \<Rightarrow> error + dataframe" where
  "cleaned qcut listings_df calendar_df h =
     (case clean_dataset qcut listings_df calendar_df h of
        (Inl e, _) \<Rightarrow> Inl e
      | (Inr df, h') \<Rightarrow> Inr (h' ! df))"

text \<open>A column of that table.\<close>

definition cleaned_column ::
  "(cell list \<Rightarrow> error + cell list) \<Rightarrow> nat \<Rightarrow> nat \<Rightarrow> heap \<Rightarrow> string \<Rightarrow> error + cell list" where
  "cleaned_column qcut listings_df calendar_df h name =
     bindE (cleaned qcut listings_df calendar_df h) (\<lambda>out. getcol out name)"

text \<open>The columns filled with the mode, and the input columns filled with the mean.\<close>

definition mode_columns :: "string list" where
  "mode_columns = [''bathrooms'', ''bedrooms'', ''beds'']"

definition mean_columns :: "string list" where
  "mean_columns = ''host_listings_count'' # review_scores_columns"

section \<open>Invariants of the stages\<close>

text \<open>Every column of the table has \<open>n\<close> cells, and the key column is there.\<close>

definition tall :: "nat \<Rightarrow> dataframe \<Rightarrow> bool" where
  "tall n df = (''listing_id'' \<in> fst ` set df \<and> list_all (\<lambda>(k, c). length c = n) df)"

text \<open>A stage that leaves the column \<open>X\<close> as it is, and one that keeps the height.\<close>

definition keeps :: "string \<Rightarrow> (dataframe \<Rightarrow> error + dataframe) \<Rightarrow> bool" where
  "keeps X f = (\<forall>d d'. f d = Inr d' \<longrightarrow> map_of d' X = map_of d X)"

definition keeps_height :: "(dataframe \<Rightarrow> error + dataframe) \<Rightarrow> bool" where
  "keeps_height f = (\<forall>n d d'. tall n d \<longrightarrow> f d = Inr d' \<longrightarrow> tall n d')"

text \<open>A list of stages in which exactly the stage \<open>s\<close> touches the column \<open>X\<close>.\<close>

definition changed_once :: "stage \<Rightarrow> string \<Rightarrow> stage list \<Rightarrow> bool" where
  "changed_once s X sts =
     (\<exists>pre post. sts = pre @ [s] @ post \<and> list_all (\<lambda>st. keeps X (snd st)) pre
                 \<and> list_all (\<lambda>st. keeps X (snd st)) post)"

text \<open>The stages up to the price column, and the stages after it.\<close>

definition price_stages :: "stage list" where
  "price_stages = drop_irrelevant_cols @ convert_date @ remove_missing_price @ convert_price"

definition feature_stages :: "(cell list \<Rightarrow> error + cell list) \<Rightarrow> stage list" where
  "feature_stages qcut =
     convert_host_since @ convert_host_response_rate qcut @ fill_host_listings_count
     @ split_host_verifications @ fill_rooms_with_mode @ split_amenities
     @ extra_people_binary @ fill_review_scores"

text \<open>The rows that \<open>dropna\<close> keeps, as a list of flags, one per row of the price column.\<close>

definition has_price :: "cell list \<Rightarrow> bool list" where
  "has_price prices = map (\<lambda>c. c \<noteq> NaN) prices"

section \<open>Notions of the specification\<close>

text \<open>
  Following the specification's words: the \<open>n\<close> most frequent items of a list of
  occurrences, in descending order of frequency, ties broken by the order in which the
  items are first met.
\<close>

definition most_frequent_items :: "nat \<Rightarrow> string list \<Rightarrow> string list" where
  "most_frequent_items n occs =
     take n (sort_key (\<lambda>x. - int (count_list occs x)) (unique occs))"

text \<open>The items of the list-valued cells of a column, one cell after the other.\<close>

definition column_items :: "cell list \<Rightarrow> string list" where
  "column_items col = concat (map (\<lambda>c. case c of Str s \<Rightarrow> list_items s | _ \<Rightarrow> []) col)"

section \<open>Example tables\<close>

definition tv_wifi :: dataframe where
  "tv_wifi = [(''amenities'', [Str ''{TV,Wifi}'', Str ''{Wifi}''])]"

text \<open>
  Three rows with the single amenity \<open>K\<close>, and two rows that list ten other amenities in
  two different orders.
\<close>

definition crowded_amenities :: "cell list" where
  "crowded_amenities =
     [Str ''{K}'', Str ''{K}'', Str ''{K}'',
      Str ''{a,b,c,d,e,f,g,h,i,j}'', Str ''{j,i,h,g,f,e,d,c,b,a}'']"

definition crowded :: dataframe where
  "crowded = [(''amenities'', crowded_amenities)]"


text \<open>
  A listings table with one listing and the full set of columns, a calendar table for
  that listing, and the merged table once the irrelevant columns are dropped. The cells
  given are those of the columns the cleaner reads.
\<close>

definition listing_columns :: "string list" where
  "listing_columns =
     [''price'', ''host_since'', ''host_response_rate'', ''host_listings_count'',
      ''host_verifications'', ''bathrooms'', ''bedrooms'', ''beds'', ''amenities'',
      ''extra_people''] @ review_scores_columns"

definition example_listings :: "cell list \<Rightarrow> dataframe" where
  "example_listings cells =
     (''id'', [Num 1])
     # map (\<lambda>k. (k, [NaN])) (filter (\<lambda>k. k \<noteq> ''available'' \<and> k \<noteq> ''price_y'') columns_to_drop)
     @ zip listing_columns (map (\<lambda>c. [c]) cells)"

definition example_calendar :: "cell list \<Rightarrow> cell list \<Rightarrow> dataframe" where
  "example_calendar dates prices =
     [(''listing_id'', map (\<lambda>_. Num 1) dates), (''date'', dates),
      (''available'', map (\<lambda>_. Str ''t'') dates), (''price'', prices)]"

definition example_joined :: "cell list \<Rightarrow> cell list \<Rightarrow> cell list \<Rightarrow> dataframe" where
  "example_joined cells dates prices =
     [(''listing_id'', map (\<lambda>_. Num 1) dates), (''date'', dates), (''price_x'', prices)]
     @ zip (tl listing_columns) (map (\<lambda>c. map (\<lambda>_. c) dates) (tl cells))"

text \<open>The merged table of the two, before any column is dropped.\<close>

definition example_merged :: "cell list \<Rightarrow> cell list \<Rightarrow> cell list \<Rightarrow> dataframe" where
  "example_merged cells dates prices =
     [(''listing_id'', map (\<lambda>_. Num 1) dates), (''date'', dates),
      (''available'', map (\<lambda>_. Str ''t'') dates), (''price_x'', prices)]
     @ map (\<lambda>k. (k, map (\<lambda>_. NaN) dates))
           (filter (\<lambda>k. k \<noteq> ''available'' \<and> k \<noteq> ''price_y'') columns_to_drop)
     @ zip (''price_y'' # tl listing_columns) (map (\<lambda>c. map (\<lambda>_. c) dates) cells)"

text \<open>
  One listing with a calendar of two days, the second day without a price.
\<close>

definition example_cells :: "cell list" where
  "example_cells =
     [Str ''$85.00'', Str ''2011-08-11'', Str ''96%'', Num 3, Str ''[email, phone]'',
      Num 1, Num 1, Num 1, Str ''{TV,Wifi}'', Str ''$5.00'',
      Num 95, Num 10, Num 10, Num 10, Num 10, Num 9, Num 10]"

definition example_dates :: "cell list" where
  "example_dates = [Str ''2016-07-04'', Str ''2016-07-05'']"

definition example_prices :: "cell list" where
  "example_prices = [Str ''$150.00'', NaN]"

definition example_heap :: heap where
  "example_heap = [example_listings example_cells, example_calendar example_dates example_prices]"

definition example_out :: dataframe where
  "example_out =
     [(''listing_id'', [Num 1]), (''host_listings_count'', [Num 3]), (''bathrooms'', [Num 1]),
      (''bedrooms'', [Num 1]), (''beds'', [Num 1]), (''review_scores_rating'', [Num 95]),
      (''review_scores_accuracy'', [Num 10]), (''review_scores_cleanliness'', [Num 10]),
      (''review_scores_checkin'', [Num 10]), (''review_scores_communication'', [Num 10]),
      (''review_scores_location'', [Num 9]), (''review_scores_value'', [Num 10]),
      (''month'', [Num 7]), (''year'', [Num 2016]), (''price'', [Num 150]),
      (''host_since_year'', [Num 2011]), (''host_response_rate_buckets'', [Num 0]),
      (''host_verifications_email'', [Num 1]), (''host_verifications_ phone'', [Num 1]),
      (''amenities_TV'', [Num 1]), (''amenities_Wifi'', [Num 1]),
      (''extra_people_fee'', [Num 1])]"

text \<open>
  The same listing and calendar with one cell changed: a price with a minus sign, a price
  that is no number, a date written with slashes, a response rate that is no number, and
  a listing without a rating.
\<close>

definition negative_price_heap :: heap where
  "negative_price_heap =
     [example_listings example_cells, example_calendar example_dates [Str ''-$5.00'', NaN]]"

definition bad_price_heap :: heap where
  "bad_price_heap =
     [example_listings example_cells, example_calendar example_dates [Str ''free'', NaN]]"

definition bad_date_heap :: heap where
  "bad_date_heap =
     [example_listings example_cells,
      example_calendar [Str ''07/04/2016'', Str ''2016-07-05''] example_prices]"

definition bad_rate_heap :: heap where
  "bad_rate_heap =
     [example_listings (example_cells[2 := Str ''within an hour'']),
      example_calendar example_dates example_prices]"

definition no_rating_heap :: heap where
  "no_rating_heap =
     [example_listings (example_cells[10 := NaN]),
      example_calendar example_dates example_prices]"

text \<open>A cut that puts every cell that is not missing into bucket 0.\<close>

definition one_bucket :: "cell list \<Rightarrow> error + cell list" where
  "one_bucket col = Inr (map (\<lambda>c. if c = NaN then NaN else Num 0) col)"


section \<open>Basic facts\<close>

lemma bindE_simps [simp]: "bindE (Inl e) f = Inl e" "bindE (Inr x) f = f x"
  by (simp_all add: bindE_def)

lemma bindE_Inr_iff: "bindE m f = Inr y \<longleftrightarrow> (\<exists>x. m = Inr x \<and> f x = Inr y)"
  by (cases m) simp_all

lemma unique_snoc:
  "unique (xs @ [x]) = (if x \<in> set (unique xs) then unique xs else unique xs @ [x])"
  by (simp add: unique_def)

lemma set_unique [simp]: "set (unique xs) = set xs"
  by (induction xs rule: rev_induct) (auto simp: unique_snoc, simp add: unique_def)

lemma distinct_unique [simp]: "distinct (unique xs)"
  by (induction xs rule: rev_induct) (auto simp: unique_snoc, simp add: unique_def)

lemma map_of_set_column:
  "map_of (set_column name vals df) k = (if k = name then Some vals else map_of df k)"
  by (simp add: set_column_def update_conv')

lemma nrows_set_column:
  "length vals = nrows df \<Longrightarrow> nrows (set_column name vals df) = nrows df"
  by (cases df) (auto simp: set_column_def nrows_def)

section \<open>The indicator of one row\<close>

lemma get_val_from_list_cases:
  "get_val_from_list r column_name v =
     (case r column_name of
        Some (Str s) \<Rightarrow> if v \<in> set (list_items s) then Num 1 else Num 0
      | _ \<Rightarrow> Num 0)"
  by (simp add: get_val_from_list_def val_from_list_body_def getitem_def as_str_def
           split: option.splits cell.splits)

text \<open>
  Claim C10: \<open>get_val_from_list\<close> never raises. For every row, column name and candidate
  item its result is 0.0 or 1.0, and the result is 0.0 when the row has no such column or the
  cell is not a string (a missing cell or a number), the cases in which the body of the
  \<open>try\<close> raises.
\<close>

theorem get_val_from_list_total:
  "get_val_from_list r column_name v \<in> {Num 0, Num 1} \<and>
   ((case r column_name of None \<Rightarrow> True | Some c \<Rightarrow> \<not> is_Str c)
      \<longrightarrow> (\<exists>e. val_from_list_body r column_name v = Inl e)
          \<and> get_val_from_list r column_name v = Num 0)"
  by (simp add: get_val_from_list_cases val_from_list_body_def getitem_def as_str_def is_Str_def
           split: option.splits cell.splits)

theorem get_val_from_list_total_witness:
  "get_val_from_list (Map.empty(''amenities'' \<mapsto> NaN)) ''amenities'' ''TV'' = Num 0
   \<and> get_val_from_list Map.empty ''amenities'' ''TV'' = Num 0
   \<and> get_val_from_list (Map.empty(''amenities'' \<mapsto> Num 3)) ''amenities'' ''TV'' = Num 0"
  using get_val_from_list_total [of "Map.empty(''amenities'' \<mapsto> NaN)" "''amenities''" "''TV''"]
        get_val_from_list_total [of "Map.empty" "''amenities''" "''TV''"]
        get_val_from_list_total [of "Map.empty(''amenities'' \<mapsto> Num 3)" "''amenities''" "''TV''"]
  by (simp add: is_Str_def)

section \<open>The extra-person fee\<close>




section \<open>Indicator columns\<close>

lemma dummy_column_cong:
  "nrows df = nrows df0 \<Longrightarrow> map_of df c = map_of df0 c \<Longrightarrow>
   dummy_column c df v = dummy_column c df0 v"
  by (simp add: dummy_column_def get_val_from_list_cases row_at_def)

lemma foldl_add_dummy:
  "nrows df = nrows df0 \<Longrightarrow> map_of df c = map_of df0 c \<Longrightarrow>
   (let out = foldl (add_dummy c) df vs in
    nrows out = nrows df0 \<and>
    (\<forall>k. map_of out k =
       (if k \<in> (\<lambda>v. c @ ''_'' @ v) ` set vs
        then Some (dummy_column c df0 (drop (Suc (length c)) k)) else map_of df k)))"
proof (induction vs arbitrary: df)
  case Nil
  then show ?case by simp
next
  case (Cons w vs)
  let ?df1 = "add_dummy c df w"
  have col: "dummy_column c df w = dummy_column c df0 w"
    using Cons.prems by (rule dummy_column_cong)
  have n1: "nrows ?df1 = nrows df0"
    using Cons.prems(1) by (simp add: add_dummy_def nrows_set_column dummy_column_def)
  have c1: "map_of ?df1 c = map_of df0 c"
    using Cons.prems(2) by (simp add: add_dummy_def map_of_set_column)
  have m1: "map_of ?df1 k = (if k = c @ ''_'' @ w then Some (dummy_column c df0 w) else map_of df k)" for k
    by (simp add: add_dummy_def map_of_set_column col)
  from Cons.IH [OF n1 c1] show ?case
    by (auto simp: Let_def m1)
qed

lemma foldl_add_dummy_distinct:
  "distinct (map fst df) \<Longrightarrow> distinct (map fst (foldl (add_dummy c) df vs))"
  by (induction vs arbitrary: df) (simp_all add: add_dummy_def set_column_def distinct_update)

lemma split_list_columns:
  assumes "split_list_into_columns column_name n df = Inr df'"
  shows "\<exists>vs. top_values df column_name n = Inr vs \<and> nrows df' = nrows df \<and>
           (distinct (map fst df) \<longrightarrow> distinct (map fst df')) \<and>
           (\<forall>k. map_of df' k =
              (if k \<in> (\<lambda>v. column_name @ ''_'' @ v) ` set vs
               then Some (dummy_column column_name df (drop (Suc (length column_name)) k))
               else map_of df k))"
proof -
  from assms obtain vs where vs: "top_values df column_name n = Inr vs"
    and out: "df' = foldl (add_dummy column_name) df vs"
    by (auto simp: split_list_into_columns_def bindE_Inr_iff)
  from foldl_add_dummy [of df df column_name vs] vs out foldl_add_dummy_distinct [of df column_name vs]
  show ?thesis by (simp add: Let_def)
qed


lemma tv_wifi_top: "top_values tv_wifi ''amenities'' 10 = Inr [''Wifi'', ''TV'']"
  by code_simp

lemma tv_wifi_split:
  "split_list_into_columns ''amenities'' 10 tv_wifi =
     Inr (tv_wifi @ [(''amenities_Wifi'', [Num 1, Num 1]), (''amenities_TV'', [Num 1, Num 0])])"
  by code_simp


section \<open>The selected items\<close>

lemma count_value_counts_of: "count_value (counts_of occs) v = counts_of (occs @ [v])"
proof (cases "v \<in> set occs")
  case True
  then show ?thesis
    by (auto simp: count_value_def counts_of_def unique_snoc image_iff)
next
  case False
  then show ?thesis
    by (auto simp: count_value_def counts_of_def unique_snoc image_iff count_list_0_iff)
qed

lemma foldl_count_value: "foldl count_value (counts_of occs) vs = counts_of (occs @ vs)"
proof (induction vs arbitrary: occs)
  case Nil
  then show ?case by simp
next
  case (Cons v vs)
  from Cons.IH [of "occs @ [v]"] show ?case by (simp add: count_value_counts_of)
qed

lemma build_value_dict_counts:
  "build_value_dict (counts_of occs) us = Inr d \<Longrightarrow> d = counts_of (occs @ column_items us)"
proof (induction us arbitrary: occs)
  case Nil
  then show ?case by (simp add: column_items_def)
next
  case (Cons u us)
  from Cons.prems obtain s where u: "u = Str s"
    by (cases u) (simp_all add: as_str_def)
  from Cons.prems u
  have "build_value_dict (counts_of (occs @ list_items s)) us = Inr d"
    by (simp add: as_str_def foldl_count_value)
  from Cons.IH [OF this] u show ?case by (simp add: column_items_def)
qed

lemma build_value_dict_strings:
  "list_all is_Str us \<Longrightarrow>
   build_value_dict (counts_of occs) us = Inr (counts_of (occs @ column_items us))"
proof (induction us arbitrary: occs)
  case Nil
  then show ?case by (simp add: column_items_def)
next
  case (Cons u us)
  from Cons.prems obtain s where u: "u = Str s"
    by (cases u) (simp_all add: is_Str_def)
  from Cons.prems Cons.IH [of "occs @ list_items s"] u show ?case
    by (simp add: as_str_def foldl_count_value column_items_def)
qed

text \<open>Sorting by a key and by the key shifted by a constant give the same list.\<close>

lemma insort_key_shift:
  "insort_key (\<lambda>x. f x + (c::int)) x ys = insort_key f x ys"
  by (induction ys) simp_all

lemma sort_key_shift: "sort_key (\<lambda>x. f x + (c::int)) xs = sort_key f xs"
  by (induction xs) (simp_all add: insort_key_shift)

lemma sort_key_graph:
  "sort_key (\<lambda>p. g (snd p)) (map (\<lambda>x. (x, f x)) xs)
   = map (\<lambda>x. (x, f x)) (sort_key (\<lambda>x. g (f x)) xs)"
proof (induction xs)
  case Nil
  then show ?case by simp
next
  case (Cons x xs)
  have "insort_key (\<lambda>p. g (snd p)) (x, f x) (map (\<lambda>x. (x, f x)) ys)
        = map (\<lambda>x. (x, f x)) (insort_key (\<lambda>x. g (f x)) x ys)" for ys
    by (induction ys) simp_all
  with Cons show ?case by simp
qed

lemma values_sorted_counts:
  "map fst (values_sorted (counts_of occs)) = sort_key (\<lambda>x. - int (count_list occs x)) (unique occs)"
proof -
  have "map fst (values_sorted (counts_of occs))
        = sort_key (\<lambda>x. - (int (count_list occs x) - 1)) (unique occs)"
    by (simp add: values_sorted_def counts_of_def sort_key_graph [where g = uminus] comp_def)
  also have "\<dots> = sort_key (\<lambda>x. - int (count_list occs x) + 1) (unique occs)"
    by (simp add: algebra_simps)
  also have "\<dots> = sort_key (\<lambda>x. - int (count_list occs x)) (unique occs)"
    by (rule sort_key_shift)
  finally show ?thesis .
qed

lemma top_values_most_frequent:
  assumes "top_values df column_name n = Inr vs"
  shows "\<exists>col. getcol df column_name = Inr col \<and>
           vs = most_frequent_items n (column_items (unique col))"
proof -
  from assms obtain col d where col: "getcol df column_name = Inr col"
    and d: "build_value_dict [] (unique col) = Inr d"
    and vs: "vs = map fst (take n (values_sorted d))"
    by (auto simp: top_values_def bindE_Inr_iff)
  have "counts_of [] = []" by (simp add: counts_of_def unique_def)
  with d build_value_dict_counts [of "[]" "unique col" d]
  have "d = counts_of (column_items (unique col))" by simp
  with vs have "vs = most_frequent_items n (column_items (unique col))"
    by (simp add: most_frequent_items_def take_map [symmetric] values_sorted_counts)
  with col show ?thesis by simp
qed

lemma top_values_strings:
  assumes "getcol df column_name = Inr col" and "list_all is_Str col"
  shows "top_values df column_name n = Inr (most_frequent_items n (column_items (unique col)))"
proof -
  have "list_all is_Str (unique col)"
    using assms(2) by (simp add: list_all_iff)
  from build_value_dict_strings [OF this, of "[]"]
  have "build_value_dict [] (unique col) = Inr (counts_of (column_items (unique col)))"
    by (simp add: counts_of_def unique_def)
  with assms(1) show ?thesis
    by (simp add: top_values_def most_frequent_items_def take_map [symmetric] values_sorted_counts)
qed

text \<open>
  Claim C1, as amended: \<open>split_list_into_columns\<close> counts each item over the distinct cell
  strings of the column, every distinct string once however many rows carry it. It selects
  the \<open>n\<close> (by default 10) most frequent items under that count, in descending order, ties
  in the order of first encounter, and adds one indicator column \<open>column_item\<close> per selected
  item and no other column.
\<close>

theorem split_list_top_items:
  assumes "split_list_into_columns column_name n df = Inr df'"
  shows "\<exists>col. getcol df column_name = Inr col \<and>
           (let vs = most_frequent_items n (column_items (unique col)) in
            length vs \<le> n \<and>
            fst ` set df' = fst ` set df \<union> (\<lambda>v. column_name @ ''_'' @ v) ` set vs \<and>
            (distinct (map fst df) \<longrightarrow> distinct (map fst df')) \<and>
            (\<forall>v\<in>set vs. map_of df' (column_name @ ''_'' @ v)
                           = Some (dummy_column column_name df v)))"
proof -
  from split_list_columns [OF assms] obtain vs where
    top: "top_values df column_name n = Inr vs"
    and dist: "distinct (map fst df) \<longrightarrow> distinct (map fst df')"
    and cols: "\<And>k. map_of df' k =
              (if k \<in> (\<lambda>v. column_name @ ''_'' @ v) ` set vs
               then Some (dummy_column column_name df (drop (Suc (length column_name)) k))
               else map_of df k)"
    by blast
  from top_values_most_frequent [OF top] obtain col where
    col: "getcol df column_name = Inr col"
    and vs: "vs = most_frequent_items n (column_items (unique col))"
    by blast
  have len: "length vs \<le> n"
    by (simp add: vs most_frequent_items_def)
  have "dom (map_of df') = dom (map_of df) \<union> (\<lambda>v. column_name @ ''_'' @ v) ` set vs"
    by (auto simp: dom_def cols)
  then have names: "fst ` set df' = fst ` set df \<union> (\<lambda>v. column_name @ ''_'' @ v) ` set vs"
    by (simp add: dom_map_of_conv_image_fst)
  have "\<forall>v\<in>set vs. map_of df' (column_name @ ''_'' @ v) = Some (dummy_column column_name df v)"
    by (simp add: cols)
  with col len names dist show ?thesis
    by (intro exI [of _ col]) (simp add: Let_def vs [symmetric])
qed

theorem split_list_top_items_witness:
  "\<exists>col. getcol tv_wifi ''amenities'' = Inr col \<and>
     most_frequent_items 10 (column_items (unique col)) = [''Wifi'', ''TV''] \<and>
     fst ` set (tv_wifi @ [(''amenities_Wifi'', [Num 1, Num 1]), (''amenities_TV'', [Num 1, Num 0])])
       = fst ` set tv_wifi \<union> {''amenities_Wifi'', ''amenities_TV''}"
proof -
  have col: "getcol tv_wifi ''amenities'' = Inr [Str ''{TV,Wifi}'', Str ''{Wifi}'']"
    by (simp add: tv_wifi_def getcol_def)
  from top_values_most_frequent [OF tv_wifi_top] col
  have top: "most_frequent_items 10 (column_items (unique [Str ''{TV,Wifi}'', Str ''{Wifi}'']))
             = [''Wifi'', ''TV'']"
    by simp
  from split_list_top_items [OF tv_wifi_split] col top show ?thesis
    by (simp add: Let_def insert_commute)
qed

text \<open>
  In the table \<open>crowded\<close> the amenity \<open>K\<close> is in three rows and each of the ten others
  in two. Counted over all rows, \<open>K\<close> leads the ten most frequent items and \<open>j\<close> is left
  out; the cleaner selects \<open>a\<close> to \<open>j\<close> and leaves \<open>K\<close> out.
\<close>

lemma crowded_items:
  "column_items crowded_amenities =
     [''K'', ''K'', ''K'', ''a'', ''b'', ''c'', ''d'', ''e'', ''f'', ''g'', ''h'', ''i'', ''j'',
      ''j'', ''i'', ''h'', ''g'', ''f'', ''e'', ''d'', ''c'', ''b'', ''a'']"
  by code_simp

lemma crowded_unique_items:
  "column_items (unique crowded_amenities) =
     [''K'', ''a'', ''b'', ''c'', ''d'', ''e'', ''f'', ''g'', ''h'', ''i'', ''j'',
      ''j'', ''i'', ''h'', ''g'', ''f'', ''e'', ''d'', ''c'', ''b'', ''a'']"
  by code_simp

lemma crowded_by_rows:
  "most_frequent_items 10
     [''K'', ''K'', ''K'', ''a'', ''b'', ''c'', ''d'', ''e'', ''f'', ''g'', ''h'', ''i'', ''j'',
      ''j'', ''i'', ''h'', ''g'', ''f'', ''e'', ''d'', ''c'', ''b'', ''a'']
   = [''K'', ''a'', ''b'', ''c'', ''d'', ''e'', ''f'', ''g'', ''h'', ''i'']"
  by (simp add: most_frequent_items_def unique_def)

lemma crowded_by_strings:
  "most_frequent_items 10
     [''K'', ''a'', ''b'', ''c'', ''d'', ''e'', ''f'', ''g'', ''h'', ''i'', ''j'',
      ''j'', ''i'', ''h'', ''g'', ''f'', ''e'', ''d'', ''c'', ''b'', ''a'']
   = [''a'', ''b'', ''c'', ''d'', ''e'', ''f'', ''g'', ''h'', ''i'', ''j'']"
  by (simp add: most_frequent_items_def unique_def)

theorem top_items_all_rows_counterexample:
  "top_values crowded ''amenities'' 10
     = Inr [''a'', ''b'', ''c'', ''d'', ''e'', ''f'', ''g'', ''h'', ''i'', ''j'']
   \<and> most_frequent_items 10 (column_items crowded_amenities)
     = [''K'', ''a'', ''b'', ''c'', ''d'', ''e'', ''f'', ''g'', ''h'', ''i'']"
proof -
  have "getcol crowded ''amenities'' = Inr crowded_amenities"
    by (simp add: crowded_def getcol_def)
  moreover have "list_all is_Str crowded_amenities"
    by (simp add: crowded_amenities_def is_Str_def)
  ultimately have "top_values crowded ''amenities'' 10
      = Inr (most_frequent_items 10 (column_items (unique crowded_amenities)))"
    by (rule top_values_strings)
  then show ?thesis
    by (simp only: crowded_items crowded_unique_items crowded_by_rows crowded_by_strings simp_thms)
qed

section \<open>The input tables stay as they are\<close>

lemma run_stage_frame:
  "n \<le> df \<Longrightarrow> n \<le> length h \<Longrightarrow>
   take n (snd (run_stage st df h)) = take n h \<and> n \<le> length (snd (run_stage st df h))
   \<and> (\<forall>r. fst (run_stage st df h) = Inr r \<longrightarrow> n \<le> r)"
  by (cases st) (auto simp: run_stage_def split: sum.splits effect.splits)

lemma run_stages_frame:
  "n \<le> df \<Longrightarrow> n \<le> length h \<Longrightarrow> take n (snd (run_stages sts df h)) = take n h"
proof (induction sts arbitrary: df h)
  case Nil
  then show ?case by simp
next
  case (Cons st sts)
  obtain res h' where run: "run_stage st df h = (res, h')" by (cases "run_stage st df h")
  from run_stage_frame [OF Cons.prems, of st] run
  have frame: "take n h' = take n h" and len: "n \<le> length h'"
    and ref: "\<And>r. res = Inr r \<Longrightarrow> n \<le> r" by auto
  show ?case
  proof (cases res)
    case (Inl e)
    with run frame show ?thesis by simp
  next
    case (Inr r)
    with run have "run_stages (st # sts) df h = run_stages sts r h'" by simp
    moreover have "take n (snd (run_stages sts r h')) = take n h'"
      using Cons.IH [of r h'] ref [OF Inr] len by simp
    ultimately show ?thesis using frame by simp
  qed
qed

text \<open>
  Claim C9: \<open>clean_dataset\<close> leaves both input tables unchanged. Every table that exists
  when it is called, the listings table and the calendar table among them, is the same
  afterwards, whether the call returns or raises: the rename, the merge and every drop
  allocate a new table, and every statement that changes a table in place changes one of
  those.
\<close>

theorem clean_dataset_leaves_inputs:
  "take (length h) (snd (clean_dataset qcut listings_df calendar_df h)) = h"
proof -
  have "take (length h) (snd (run_stages (clean_stages qcut) (Suc (length h)) (h @ [a, b]))) = h" for a b
    using run_stages_frame [of "length h" "Suc (length h)" "h @ [a, b]" "clean_stages qcut"] by simp
  then show ?thesis
    by (simp add: clean_dataset_def run_stage_def split: sum.splits)
qed

section \<open>Stages on tables and on the heap\<close>

lemma run_pure_append: "run_pure (a @ b) d = bindE (run_pure a d) (run_pure b)"
  by (induction a arbitrary: d) (simp_all add: bindE_def split: sum.splits)

lemma run_stages_pure:
  "df < length h \<Longrightarrow>
   (case run_stages sts df h of (Inl e, _) \<Rightarrow> Inl e | (Inr r, h') \<Rightarrow> Inr (h' ! r))
   = run_pure sts (h ! df)"
proof (induction sts arbitrary: df h)
  case Nil
  then show ?case by simp
next
  case (Cons st sts)
  show ?case
  proof (cases "snd st (h ! df)")
    case (Inl e)
    then show ?thesis by (simp add: run_stage_def)
  next
    case (Inr d)
    show ?thesis
    proof (cases "fst st")
      case Fresh
      with Inr Cons.IH [of "length h" "h @ [d]"] show ?thesis
        by (simp add: run_stage_def)
    next
      case InPlace
      with Inr Cons.IH [of df "h[df := d]"] Cons.prems show ?thesis
        by (simp add: run_stage_def)
    qed
  qed
qed

lemma cleaned_pure:
  assumes "listings_df < length h" and "calendar_df < length h"
  shows "cleaned qcut listings_df calendar_df h = clean_table qcut (h ! listings_df) (h ! calendar_df)"
proof -
  let ?h1 = "h @ [rename_id (h ! listings_df)]"
  have first: "run_stage (Fresh, \<lambda>d. Inr (rename_id d)) listings_df h = (Inr (length h), ?h1)"
    by (simp add: run_stage_def)
  have merged: "merge ''listing_id'' (?h1 ! calendar_df) (?h1 ! length h)
                = joined (h ! listings_df) (h ! calendar_df)"
    using assms by (simp add: joined_def nth_append)
  show ?thesis
  proof (cases "joined (h ! listings_df) (h ! calendar_df)")
    case (Inl e)
    with first merged show ?thesis
      by (simp add: cleaned_def clean_dataset_def clean_table_def)
  next
    case (Inr d)
    from run_stages_pure [of "Suc (length h)" "?h1 @ [d]" "clean_stages qcut"]
    have "(case run_stages (clean_stages qcut) (Suc (length h)) (?h1 @ [d]) of
             (Inl e, _) \<Rightarrow> Inl e | (Inr r, h') \<Rightarrow> Inr (h' ! r))
          = run_pure (clean_stages qcut) d"
      by (simp add: nth_append)
    with first merged Inr show ?thesis
      by (simp add: cleaned_def clean_dataset_def clean_table_def)
  qed
qed

section \<open>Sequences of results\<close>

lemma collect_length: "collect xs = Inr vs \<Longrightarrow> length vs = length xs"
  by (induction xs arbitrary: vs) (auto simp: bindE_Inr_iff)

lemma collect_nth: "collect xs = Inr vs \<Longrightarrow> i < length xs \<Longrightarrow> xs ! i = Inr (vs ! i)"
proof (induction xs arbitrary: vs i)
  case Nil
  then show ?case by simp
next
  case (Cons x xs)
  then show ?case by (cases i) (auto simp: bindE_Inr_iff)
qed

lemma collect_Inr_map: "collect (map Inr xs) = Inr xs"
  by (induction xs) simp_all

lemma df_apply_length: "df_apply f d = Inr vs \<Longrightarrow> length vs = nrows d"
  by (auto simp: df_apply_def dest: collect_length)

section \<open>Heights\<close>

lemma tall_nrows: "tall n d \<Longrightarrow> nrows d = n"
  by (cases d) (auto simp: tall_def nrows_def)

lemma tall_col: "tall n d \<Longrightarrow> map_of d k = Some c \<Longrightarrow> length c = n"
  by (auto simp: tall_def list_all_iff dest!: map_of_SomeD)

lemma set_update_subset: "set (AList.update k v al) \<subseteq> insert (k, v) (set al)"
  by (induction al) auto

lemma tall_set_column: "tall n d \<Longrightarrow> length v = n \<Longrightarrow> tall n (set_column k v d)"
  using set_update_subset [of k v d]
  by (auto simp: tall_def set_column_def list_all_iff dom_update)

lemma keeps_height_drop_columns: "''listing_id'' \<notin> set ns \<Longrightarrow> keeps_height (drop_columns ns)"
  by (auto simp: keeps_height_def drop_columns_def tall_def list_all_iff image_iff split: if_splits)

lemma keeps_height_assign_apply: "keeps_height (assign_apply k f)"
  by (auto simp: keeps_height_def assign_apply_def bindE_Inr_iff
           dest!: df_apply_length intro!: tall_set_column simp: tall_nrows)

lemma getcol_Inr: "getcol d k = Inr c \<longleftrightarrow> map_of d k = Some c"
  by (simp add: getcol_def split: option.splits)

lemma keeps_height_to_float_column: "keeps_height (to_float_column k src chars)"
  by (auto simp: keeps_height_def to_float_column_def bindE_Inr_iff getcol_Inr
           dest!: collect_length intro!: tall_set_column dest: tall_col)

lemma keeps_height_fillna_mean: "keeps_height (fillna_mean k)"
  by (auto simp: keeps_height_def fillna_mean_def bindE_Inr_iff getcol_Inr fillna_def
           intro!: tall_set_column dest: tall_col)

lemma keeps_height_fillna_mode: "keeps_height (fillna_mode k)"
  by (auto simp: keeps_height_def fillna_mode_def bindE_Inr_iff getcol_Inr fillna_def
           intro!: tall_set_column dest: tall_col)

lemma keeps_height_assign_buckets: "keeps_height (assign_buckets qcut)"
  by (auto simp: keeps_height_def assign_buckets_def bindE_Inr_iff getcol_Inr
           intro!: tall_set_column dest: tall_col split: if_splits)

lemma tall_foldl_add_dummy: "tall n d \<Longrightarrow> tall n (foldl (add_dummy c) d vs)"
  by (induction vs arbitrary: d)
     (simp_all add: add_dummy_def tall_set_column dummy_column_def tall_nrows)

lemma keeps_height_split_list: "keeps_height (split_list_into_columns c m)"
  by (auto simp: keeps_height_def split_list_into_columns_def bindE_Inr_iff tall_foldl_add_dummy)

lemma run_pure_height:
  "list_all (\<lambda>st. keeps_height (snd st)) sts \<Longrightarrow> tall n d \<Longrightarrow> run_pure sts d = Inr d' \<Longrightarrow> tall n d'"
  by (induction sts arbitrary: d) (auto simp: bindE_Inr_iff keeps_height_def)

section \<open>Columns that a stage leaves alone\<close>

lemma map_of_drop_columns:
  assumes "drop_columns ns d = Inr d'"
  shows "map_of d' k = (if k \<in> set ns then None else map_of d k)"
proof -
  have "map_of (filter (\<lambda>(k, c). k \<notin> set ns) d) k = (if k \<in> set ns then None else map_of d k)"
    by (induction d) auto
  with assms show ?thesis
    by (auto simp: drop_columns_def split: if_splits)
qed

lemma keeps_drop_columns: "X \<notin> set ns \<Longrightarrow> keeps X (drop_columns ns)"
  by (simp add: keeps_def map_of_drop_columns)

lemma keeps_assign_apply: "X \<noteq> k \<Longrightarrow> keeps X (assign_apply k f)"
  by (auto simp: keeps_def assign_apply_def bindE_Inr_iff map_of_set_column)

lemma keeps_to_float_column: "X \<noteq> k \<Longrightarrow> keeps X (to_float_column k src chars)"
  by (auto simp: keeps_def to_float_column_def bindE_Inr_iff map_of_set_column)

lemma keeps_fillna_mean: "X \<noteq> k \<Longrightarrow> keeps X (fillna_mean k)"
  by (auto simp: keeps_def fillna_mean_def bindE_Inr_iff map_of_set_column)

lemma keeps_fillna_mode: "X \<noteq> k \<Longrightarrow> keeps X (fillna_mode k)"
  by (auto simp: keeps_def fillna_mode_def bindE_Inr_iff map_of_set_column)

lemma keeps_assign_buckets: "X \<noteq> ''host_response_rate_buckets'' \<Longrightarrow> keeps X (assign_buckets qcut)"
  by (auto simp: keeps_def assign_buckets_def bindE_Inr_iff map_of_set_column split: if_splits)

lemma keeps_split_list:
  assumes "\<forall>v. X \<noteq> c @ ''_'' @ v"
  shows "keeps X (split_list_into_columns c m)"
  unfolding keeps_def
proof (intro allI impI)
  fix d d'
  assume "split_list_into_columns c m d = Inr d'"
  from split_list_columns [OF this] obtain vs where
    cols: "\<And>k. map_of d' k =
              (if k \<in> (\<lambda>v. c @ ''_'' @ v) ` set vs
               then Some (dummy_column c d (drop (Suc (length c)) k))
               else map_of d k)"
    by blast
  have "X \<notin> (\<lambda>v. c @ ''_'' @ v) ` set vs"
    using assms by blast
  then show "map_of d' X = map_of d X"
    by (simp only: cols if_False)
qed

lemma run_pure_keeps:
  "list_all (\<lambda>st. keeps X (snd st)) sts \<Longrightarrow> run_pure sts d = Inr d' \<Longrightarrow> map_of d' X = map_of d X"
  by (induction sts arbitrary: d) (auto simp: bindE_Inr_iff keeps_def)

section \<open>Rows kept by a filter\<close>

lemma keep_cells_Nil [simp]: "keep_cells [] c = []" "keep_cells keep [] = []"
  by (simp_all add: keep_cells_def)

lemma keep_cells_Cons [simp]:
  "keep_cells (b # keep) (x # c) = (if b then x # keep_cells keep c else keep_cells keep c)"
  by (simp add: keep_cells_def)

lemma keep_cells_filter: "keep_cells (map P xs) xs = filter P xs"
  by (induction xs) simp_all

lemma keep_cells_map: "keep_cells keep (map f c) = map f (keep_cells keep c)"
proof (induction keep arbitrary: c)
  case Nil
  then show ?case by simp
next
  case (Cons b keep)
  then show ?case by (cases c) simp_all
qed

lemma keep_cells_length:
  "length c = length keep \<Longrightarrow> length (keep_cells keep c) = length (filter id keep)"
proof (induction keep arbitrary: c)
  case Nil
  then show ?case by simp
next
  case (Cons b keep)
  then show ?case by (cases c) simp_all
qed

lemma keep_cells_nth:
  "length c = length keep \<Longrightarrow> i < length keep \<Longrightarrow> keep ! i \<Longrightarrow>
   length (filter id (take i keep)) < length (filter id keep) \<and>
   keep_cells keep c ! length (filter id (take i keep)) = c ! i"
proof (induction keep arbitrary: c i)
  case Nil
  then show ?case by simp
next
  case (Cons b keep)
  then obtain x c' where c: "c = x # c'" by (cases c) auto
  show ?case
  proof (cases i)
    case 0
    with Cons.prems c show ?thesis by simp
  next
    case (Suc j)
    with Cons.prems c Cons.IH [of c' j] show ?thesis by simp
  qed
qed

lemma map_of_select_rows:
  "map_of (select_rows keep d) k = map_option (keep_cells keep) (map_of d k)"
  by (simp add: select_rows_def map_of_map)

lemma tall_select_rows:
  "tall n d \<Longrightarrow> length keep = n \<Longrightarrow> tall (length (filter id keep)) (select_rows keep d)"
  by (auto simp: tall_def select_rows_def list_all_iff image_iff keep_cells_length
           intro: bexI [rotated])

section \<open>Functions of one cell of the row\<close>

lemma map_nth_fun: "map (\<lambda>i. g (xs ! i)) [0..<length xs] = map g xs"
  by (rule nth_equalityI) simp_all

lemma df_apply_cell:
  assumes "tall n d" and "map_of d X = Some col" and "\<And>r r'. r X = r' X \<Longrightarrow> f r = f r'"
  shows "df_apply f d = collect (map (\<lambda>c. f (Map.empty(X \<mapsto> c))) col)"
proof -
  have len: "nrows d = length col"
    using assms(1,2) by (simp add: tall_nrows tall_col)
  have "f (row_at d i) = f (Map.empty(X \<mapsto> col ! i))" for i
    by (rule assms(3)) (simp add: row_at_def assms(2))
  then show ?thesis
    by (simp add: df_apply_def len map_nth_fun [of "\<lambda>c. f (Map.empty(X \<mapsto> c))" col])
qed

lemma get_month_cong: "r ''date'' = r' ''date'' \<Longrightarrow> get_month_from_date r = get_month_from_date r'"
  by (simp add: get_month_from_date_def getitem_def)

lemma get_year_cong: "r ''date'' = r' ''date'' \<Longrightarrow> get_year_from_date r = get_year_from_date r'"
  by (simp add: get_year_from_date_def getitem_def)

lemma get_host_since_cong:
  "r ''host_since'' = r' ''host_since'' \<Longrightarrow> get_host_since_year r = get_host_since_year r'"
  by (simp add: get_host_since_year_def host_since_body_def getitem_def)

section \<open>The blocks of the cleaner\<close>

lemmas keeps_rules =
  keeps_drop_columns keeps_assign_apply keeps_to_float_column keeps_fillna_mean
  keeps_fillna_mode keeps_assign_buckets keeps_split_list

lemmas height_rules =
  keeps_height_drop_columns keeps_height_assign_apply keeps_height_to_float_column
  keeps_height_fillna_mean keeps_height_fillna_mode keeps_height_assign_buckets
  keeps_height_split_list

lemma joined_tall:
  assumes "joined listings calendar = Inr J"
  shows "tall (nrows J) J"
proof -
  let ?left = calendar and ?right = "rename_id listings"
  from assms obtain lk rk where lk: "map_of ?left ''listing_id'' = Some lk"
    and rk: "map_of ?right ''listing_id'' = Some rk"
    and J: "J = map (\<lambda>(k, c). (if k \<noteq> ''listing_id'' \<and> k \<in> fst ` set ?right then k @ ''_x'' else k,
                                   map (\<lambda>(i, j). c ! i) (join_pairs lk rk))) ?left
              @ map (\<lambda>(k, c). (if k \<in> fst ` set ?left then k @ ''_y'' else k,
                                   map (\<lambda>(i, j). c ! j) (join_pairs lk rk)))
                    (filter (\<lambda>(k, c). k \<noteq> ''listing_id'') ?right)"
    by (auto simp: joined_def merge_def bindE_Inr_iff getcol_Inr Let_def split: if_splits)
  from lk have "(''listing_id'', lk) \<in> set ?left" by (rule map_of_SomeD)
  then have key: "''listing_id'' \<in> fst ` set J"
    unfolding J by (force simp: image_iff)
  have all: "list_all (\<lambda>(k, c). length c = length (join_pairs lk rk)) J"
    unfolding J by (auto simp: list_all_iff)
  from key all have "tall (length (join_pairs lk rk)) J"
    by (simp add: tall_def)
  then show ?thesis by (simp add: tall_nrows)
qed

lemma date_not_dropped:
  "''date'' \<notin> set columns_to_drop" "''price_x'' \<notin> set columns_to_drop"
  "''listing_id'' \<notin> set columns_to_drop" "''host_since'' \<notin> set columns_to_drop"
  by (simp_all add: columns_to_drop_def)

lemma clean_stages_split: "clean_stages qcut = price_stages @ feature_stages qcut"
  by (simp add: clean_stages_def price_stages_def feature_stages_def)

lemma length_filter_has_price:
  "length (filter id (has_price prices)) = length (filter (\<lambda>c. c \<noteq> NaN) prices)"
  by (induction prices) (simp_all add: has_price_def)

lemma price_stages_effect:
  assumes tall: "tall n J" and run: "run_pure price_stages J = Inr D"
  shows "\<exists>dates prices ms ys ps.
     map_of J ''date'' = Some dates \<and> map_of J ''price_x'' = Some prices \<and>
     collect (map (\<lambda>c. get_month_from_date (Map.empty(''date'' \<mapsto> c))) dates) = Inr ms \<and>
     collect (map (\<lambda>c. get_year_from_date (Map.empty(''date'' \<mapsto> c))) dates) = Inr ys \<and>
     collect (map (as_float_without ''$, '') (filter (\<lambda>c. c \<noteq> NaN) prices)) = Inr ps \<and>
     map_of D ''month'' = Some (keep_cells (has_price prices) ms) \<and>
     map_of D ''year'' = Some (keep_cells (has_price prices) ys) \<and>
     map_of D ''price'' = Some ps \<and> tall (length ps) D"
proof -
  from run obtain D1 D2a D2b D2 D3 D4 where
    s1: "drop_columns columns_to_drop J = Inr D1"
    and s2: "assign_apply ''month'' get_month_from_date D1 = Inr D2a"
    and s3: "assign_apply ''year'' get_year_from_date D2a = Inr D2b"
    and s4: "drop_columns [''date''] D2b = Inr D2"
    and s5: "dropna_subset ''price_x'' D2 = Inr D3"
    and s6: "to_float_column ''price'' ''price_x'' ''$, '' D3 = Inr D4"
    and s7: "drop_columns [''price_x''] D4 = Inr D"
    by (simp add: price_stages_def drop_irrelevant_cols_def convert_date_def
          remove_missing_price_def convert_price_def bindE_Inr_iff) blast
  have t1: "tall n D1"
    using keeps_height_drop_columns [OF date_not_dropped(3)] tall s1
    by (auto simp: keeps_height_def)
  from s2 obtain ms where ms: "df_apply get_month_from_date D1 = Inr ms"
    and D2a: "D2a = set_column ''month'' ms D1"
    by (auto simp: assign_apply_def bindE_Inr_iff)
  have t2: "tall n D2a"
    using keeps_height_assign_apply t1 s2 by (auto simp: keeps_height_def)
  from s3 obtain ys where ys: "df_apply get_year_from_date D2a = Inr ys"
    and D2b: "D2b = set_column ''year'' ys D2a"
    by (auto simp: assign_apply_def bindE_Inr_iff)
  have t3: "tall n D2b"
    using keeps_height_assign_apply t2 s3 by (auto simp: keeps_height_def)
  from s4 have "''date'' \<in> fst ` set D2b"
    by (auto simp: drop_columns_def split: if_splits)
  then obtain dates where "map_of D2b ''date'' = Some dates"
    by (auto dest: weak_map_of_SomeI)
  then have d1: "map_of D1 ''date'' = Some dates"
    by (simp add: D2b D2a map_of_set_column)
  then have dJ: "map_of J ''date'' = Some dates"
    using map_of_drop_columns [OF s1, of "''date''"] by (simp add: date_not_dropped)
  have d2a: "map_of D2a ''date'' = Some dates"
    using d1 by (simp add: D2a map_of_set_column)
  have ms': "collect (map (\<lambda>c. get_month_from_date (Map.empty(''date'' \<mapsto> c))) dates) = Inr ms"
    using df_apply_cell [OF t1 d1, of get_month_from_date, OF get_month_cong] ms by simp
  have ys': "collect (map (\<lambda>c. get_year_from_date (Map.empty(''date'' \<mapsto> c))) dates) = Inr ys"
    using df_apply_cell [OF t2 d2a, of get_year_from_date, OF get_year_cong] ys by simp
  have t4: "tall n D2"
    using keeps_height_drop_columns [of "[''date'']"] t3 s4 by (auto simp: keeps_height_def)
  have m2: "map_of D2 ''month'' = Some ms" "map_of D2 ''year'' = Some ys"
    using map_of_drop_columns [OF s4] by (simp_all add: D2b D2a map_of_set_column)
  from s5 obtain prices where p2: "map_of D2 ''price_x'' = Some prices"
    and D3: "D3 = select_rows (has_price prices) D2"
    by (auto simp: dropna_subset_def bindE_Inr_iff getcol_Inr has_price_def)
  have pJ: "map_of J ''price_x'' = Some prices"
    using p2 map_of_drop_columns [OF s4, of "''price_x''"] map_of_drop_columns [OF s1, of "''price_x''"]
    by (simp add: D2b D2a map_of_set_column date_not_dropped)
  have lenp: "length (has_price prices) = n"
    using tall_col [OF t4 p2] by (simp add: has_price_def)
  have t5: "tall (length (filter id (has_price prices))) D3"
    unfolding D3 using t4 lenp by (rule tall_select_rows)
  have p3: "map_of D3 ''price_x'' = Some (filter (\<lambda>c. c \<noteq> NaN) prices)"
    by (simp add: D3 map_of_select_rows p2 has_price_def keep_cells_filter)
  from s6 p3 obtain ps where
    ps: "collect (map (as_float_without ''$, '') (filter (\<lambda>c. c \<noteq> NaN) prices)) = Inr ps"
    and D4: "D4 = set_column ''price'' ps D3"
    by (auto simp: to_float_column_def bindE_Inr_iff getcol_Inr)
  have lps: "length ps = length (filter id (has_price prices))"
    using collect_length [OF ps] by (simp add: length_filter_has_price)
  have t6: "tall (length ps) D4"
    unfolding D4 using t5 lps by (simp add: tall_set_column)
  have t7: "tall (length ps) D"
    using keeps_height_drop_columns [of "[''price_x'']"] t6 s7 by (auto simp: keeps_height_def)
  have out: "map_of D ''month'' = Some (keep_cells (has_price prices) ms)"
    "map_of D ''year'' = Some (keep_cells (has_price prices) ys)"
    "map_of D ''price'' = Some ps"
    using map_of_drop_columns [OF s7] m2
    by (simp_all add: D4 D3 map_of_set_column map_of_select_rows)
  from dJ pJ ms' ys' ps out t7 show ?thesis by blast
qed

lemma price_stages_keeps:
  assumes run: "run_pure price_stages J = Inr D"
    and X: "X \<notin> set columns_to_drop" "X \<notin> {''month'', ''year'', ''date'', ''price'', ''price_x''}"
    and prices: "map_of J ''price_x'' = Some prices"
  shows "map_of D X = map_option (keep_cells (has_price prices)) (map_of J X)"
proof -
  from run obtain D2 D3 where
    a: "run_pure (drop_irrelevant_cols @ convert_date) J = Inr D2"
    and b: "dropna_subset ''price_x'' D2 = Inr D3"
    and c: "run_pure convert_price D3 = Inr D"
    by (simp add: price_stages_def run_pure_append remove_missing_price_def bindE_Inr_iff) blast
  have ka: "list_all (\<lambda>st. keeps Y (snd st)) (drop_irrelevant_cols @ convert_date)"
    if "Y \<notin> set columns_to_drop" "Y \<notin> {''month'', ''year'', ''date''}" for Y
    using that by (simp add: drop_irrelevant_cols_def convert_date_def keeps_rules)
  have kc: "list_all (\<lambda>st. keeps X (snd st)) convert_price"
    using X by (simp add: convert_price_def keeps_rules)
  have "map_of D2 ''price_x'' = Some prices"
    using run_pure_keeps [OF ka a, of "''price_x''"] prices by (simp add: date_not_dropped)
  with b have D3: "D3 = select_rows (has_price prices) D2"
    by (auto simp: dropna_subset_def bindE_Inr_iff getcol_Inr has_price_def)
  have "map_of D2 X = map_of J X"
    using run_pure_keeps [OF ka a, of X] X by simp
  moreover have "map_of D X = map_of D3 X"
    using kc c by (rule run_pure_keeps)
  ultimately show ?thesis
    by (simp add: D3 map_of_select_rows)
qed

lemma feature_stages_height:
  "list_all (\<lambda>st. keeps_height (snd st)) (feature_stages qcut)"
  by (simp add: feature_stages_def convert_host_since_def convert_host_response_rate_def
        fill_host_listings_count_def split_host_verifications_def fill_rooms_with_mode_def
        split_amenities_def extra_people_binary_def fill_review_scores_def
        review_scores_columns_def height_rules)

lemma feature_stages_keeps:
  "X \<in> {''month'', ''year'', ''price''} \<Longrightarrow> list_all (\<lambda>st. keeps X (snd st)) (feature_stages qcut)"
  by (auto simp: feature_stages_def convert_host_since_def convert_host_response_rate_def
        fill_host_listings_count_def split_host_verifications_def fill_rooms_with_mode_def
        split_amenities_def extra_people_binary_def fill_review_scores_def
        review_scores_columns_def keeps_rules)

lemma bindE_assoc: "bindE (bindE m f) g = bindE m (\<lambda>x. bindE (f x) g)"
  by (cases m) simp_all

lemma example_merge:
  "joined (example_listings [c1, c2, c3, c4, c5, c6, c7, c8, c9, c10, c11, c12, c13, c14, c15, c16, c17])
          (example_calendar [d1, d2] [p1, p2])
   = Inr (example_merged [c1, c2, c3, c4, c5, c6, c7, c8, c9, c10, c11, c12, c13, c14, c15, c16, c17]
            [d1, d2] [p1, p2])"
  by code_simp

lemma example_drop:
  "run_pure drop_irrelevant_cols
     (example_merged [c1, c2, c3, c4, c5, c6, c7, c8, c9, c10, c11, c12, c13, c14, c15, c16, c17]
        [d1, d2] [p1, p2])
   = Inr (example_joined [c1, c2, c3, c4, c5, c6, c7, c8, c9, c10, c11, c12, c13, c14, c15, c16, c17]
            [d1, d2] [p1, p2])"
  by code_simp

lemma clean_table_after_drop:
  "clean_table qcut listings calendar =
     bindE (bindE (joined listings calendar) (run_pure drop_irrelevant_cols))
       (run_pure (convert_date @ remove_missing_price @ convert_price @ feature_stages qcut))"
  by (cases "joined listings calendar")
     (simp_all add: clean_table_def clean_stages_split price_stages_def run_pure_append)

lemma example_clean_table:
  "clean_table qcut
     (example_listings [c1, c2, c3, c4, c5, c6, c7, c8, c9, c10, c11, c12, c13, c14, c15, c16, c17])
     (example_calendar [d1, d2] [p1, p2])
   = run_pure (convert_date @ remove_missing_price @ convert_price @ feature_stages qcut)
       (example_joined [c1, c2, c3, c4, c5, c6, c7, c8, c9, c10, c11, c12, c13, c14, c15, c16, c17]
          [d1, d2] [p1, p2])"
  by (simp only: clean_table_after_drop example_merge example_drop bindE_simps)

lemma example_features:
  "run_pure (convert_date @ remove_missing_price @ convert_price @ feature_stages one_bucket)
     (example_joined example_cells example_dates example_prices) = Inr example_out"
  by code_simp

lemma example_run: "cleaned one_bucket 0 1 example_heap = Inr example_out"
proof -
  have "cleaned one_bucket 0 1 example_heap
        = clean_table one_bucket (example_heap ! 0) (example_heap ! 1)"
    by (rule cleaned_pure) (simp_all add: example_heap_def)
  also have "\<dots> = run_pure (convert_date @ remove_missing_price @ convert_price @ feature_stages one_bucket)
       (example_joined example_cells example_dates example_prices)"
    by (simp add: example_heap_def example_cells_def example_dates_def example_prices_def
          example_clean_table)
  finally show ?thesis by (simp only: example_features)
qed

lemma cleaned_stages:
  assumes "cleaned qcut listings_df calendar_df h = Inr out"
    and "listings_df < length h" and "calendar_df < length h"
    and "joined (h ! listings_df) (h ! calendar_df) = Inr J"
  shows "\<exists>D. run_pure price_stages J = Inr D \<and> run_pure (feature_stages qcut) D = Inr out"
  using assms
  by (simp add: cleaned_pure clean_table_def clean_stages_split run_pure_append bindE_Inr_iff)

lemma cleaned_joined:
  assumes "cleaned qcut listings_df calendar_df h = Inr out"
    and "listings_df < length h" and "calendar_df < length h"
  shows "\<exists>J. joined (h ! listings_df) (h ! calendar_df) = Inr J"
  using assms by (auto simp: cleaned_pure clean_table_def bindE_Inr_iff)

lemma month_of_example: "get_month_from_date (Map.empty(''date'' \<mapsto> Str ''2016-07-04'')) = Inr (Num 7)"
  by code_simp

lemma year_of_example: "get_year_from_date (Map.empty(''date'' \<mapsto> Str ''2016-07-04'')) = Inr (Num 2016)"
  by code_simp

lemma price_of_example: "as_float_without ''$, '' (Str ''$150.00'') = Inr (Num 150)"
  by code_simp

lemma length_filter_map_id: "length (filter id (map P xs)) = length (filter P xs)"
  by (induction xs) simp_all

lemma position_has_price:
  "length (filter id (take i (has_price prices))) = length (filter (\<lambda>c. c \<noteq> NaN) (take i prices))"
  by (simp add: has_price_def take_map length_filter_map_id)

lemma example_row_position:
  assumes "cleaned qcut listings_df calendar_df h = Inr out"
    and "listings_df < length h" and "calendar_df < length h"
    and "joined (h ! listings_df) (h ! calendar_df) = Inr J"
    and "getcol J ''date'' = Inr dates" and "getcol J ''price_x'' = Inr prices"
    and "i < nrows J" and "dates ! i = Str ''2016-07-04''" and "prices ! i = Str ''$150.00''"
  shows "let k = length (filter (\<lambda>c. c \<noteq> NaN) (take i prices)) in
         k < nrows out \<and> row_at out k ''month'' = Some (Num 7) \<and>
         row_at out k ''year'' = Some (Num 2016) \<and> row_at out k ''price'' = Some (Num 150)"
proof -
  let ?n = "nrows J" and ?keep = "has_price prices"
  let ?k = "length (filter id (take i ?keep))"
  from cleaned_stages [OF assms(1-4)] obtain D where
    front: "run_pure price_stages J = Inr D" and feat: "run_pure (feature_stages qcut) D = Inr out"
    by blast
  have tallJ: "tall ?n J" using assms(4) by (rule joined_tall)
  from price_stages_effect [OF tallJ front] assms(5,6) obtain ms ys ps where
    ms: "collect (map (\<lambda>c. get_month_from_date (Map.empty(''date'' \<mapsto> c))) dates) = Inr ms"
    and ys: "collect (map (\<lambda>c. get_year_from_date (Map.empty(''date'' \<mapsto> c))) dates) = Inr ys"
    and ps: "collect (map (as_float_without ''$, '') (filter (\<lambda>c. c \<noteq> NaN) prices)) = Inr ps"
    and Dm: "map_of D ''month'' = Some (keep_cells ?keep ms)"
    and Dy: "map_of D ''year'' = Some (keep_cells ?keep ys)"
    and Dp: "map_of D ''price'' = Some ps" and tallD: "tall (length ps) D"
    by (auto simp: getcol_Inr)
  have len: "length dates = ?n" "length prices = ?n"
    using tallJ assms(5,6) by (auto simp: getcol_Inr dest: tall_col)
  have lens: "length ms = length ?keep" "length ys = length ?keep" "length prices = length ?keep"
    using collect_length [OF ms] collect_length [OF ys] len by (simp_all add: has_price_def)
  have i: "i < length ?keep" "?keep ! i"
    using assms(7,9) len by (simp_all add: has_price_def)
  have "ms ! i = Num 7"
    using collect_nth [OF ms, of i] assms(7,8) len by (simp add: month_of_example)
  with keep_cells_nth [OF lens(1) i]
  have m: "keep_cells ?keep ms ! ?k = Num 7" and k: "?k < length (filter id ?keep)" by simp_all
  have "ys ! i = Num 2016"
    using collect_nth [OF ys, of i] assms(7,8) len by (simp add: year_of_example)
  with keep_cells_nth [OF lens(2) i]
  have y: "keep_cells ?keep ys ! ?k = Num 2016" by simp
  have lps: "length ps = length (filter id ?keep)"
    using collect_length [OF ps] by (simp add: length_filter_has_price)
  from keep_cells_nth [OF lens(3) i] assms(9)
  have "filter (\<lambda>c. c \<noteq> NaN) prices ! ?k = Str ''$150.00''"
    by (simp add: has_price_def keep_cells_filter)
  with collect_nth [OF ps, of ?k] k
  have p: "ps ! ?k = Num 150"
    by (simp add: length_filter_has_price price_of_example)
  have "tall (length ps) out"
    using feature_stages_height tallD feat by (rule run_pure_height)
  then have rows: "nrows out = length ps" by (rule tall_nrows)
  have cols: "map_of out ''month'' = Some (keep_cells ?keep ms)"
    "map_of out ''year'' = Some (keep_cells ?keep ys)" "map_of out ''price'' = Some ps"
    using run_pure_keeps [OF feature_stages_keeps feat] Dm Dy Dp by simp_all
  from k m y p rows lps cols show ?thesis
    by (simp add: Let_def row_at_def position_has_price [symmetric])
qed

lemma month_year_of_row:
  assumes "r ''date'' = Some (Str ''2016-07-04'')"
  shows "get_month_from_date r = Inr (Num 7) \<and> get_year_from_date r = Inr (Num 2016)"
proof -
  have "r ''date'' = (Map.empty(''date'' \<mapsto> Str ''2016-07-04'')) ''date''"
    using assms by simp
  then have "get_month_from_date r = get_month_from_date (Map.empty(''date'' \<mapsto> Str ''2016-07-04''))"
    and "get_year_from_date r = get_year_from_date (Map.empty(''date'' \<mapsto> Str ''2016-07-04''))"
    by (rule get_month_cong, rule get_year_cong)
  then show ?thesis by (simp only: month_of_example year_of_example simp_thms)
qed


lemma example_joined_table:
  "joined (example_heap ! 0) (example_heap ! 1)
   = Inr (example_merged example_cells example_dates example_prices)"
  by (simp add: example_heap_def example_cells_def example_dates_def example_prices_def example_merge)

lemma example_merged_columns:
  "getcol (example_merged cells dates prices) ''date'' = Inr dates"
  "getcol (example_merged cells dates prices) ''price_x'' = Inr prices"
  "nrows (example_merged cells dates prices) = length dates"
  by (simp_all add: example_merged_def getcol_def nrows_def)



lemma collect_all_Inr: "collect xs = Inr vs \<Longrightarrow> x \<in> set xs \<Longrightarrow> \<exists>v. x = Inr v"
  by (induction xs arbitrary: vs) (auto simp: bindE_Inr_iff)


lemma negative_price_features:
  "bindE (run_pure (convert_date @ remove_missing_price @ convert_price @ feature_stages one_bucket)
            (example_joined example_cells example_dates [Str ''-$5.00'', NaN]))
         (\<lambda>out. getcol out ''price'') = Inr [Num (- 5)]"
  by code_simp

lemma bad_price_features:
  "run_pure (convert_date @ remove_missing_price @ convert_price @ feature_stages one_bucket)
     (example_joined example_cells example_dates [Str ''free'', NaN]) = Inl ValueError"
  by code_simp

lemma negative_price_run: "cleaned_column one_bucket 0 1 negative_price_heap ''price'' = Inr [Num (- 5)]"
proof -
  have "cleaned one_bucket 0 1 negative_price_heap
        = clean_table one_bucket (negative_price_heap ! 0) (negative_price_heap ! 1)"
    by (rule cleaned_pure) (simp_all add: negative_price_heap_def)
  also have "\<dots> = run_pure (convert_date @ remove_missing_price @ convert_price @ feature_stages one_bucket)
       (example_joined example_cells example_dates [Str ''-$5.00'', NaN])"
    by (simp add: negative_price_heap_def example_cells_def example_dates_def example_clean_table)
  finally show ?thesis by (simp only: cleaned_column_def negative_price_features)
qed

lemma bad_price_run: "cleaned one_bucket 0 1 bad_price_heap = Inl ValueError"
proof -
  have "cleaned one_bucket 0 1 bad_price_heap
        = clean_table one_bucket (bad_price_heap ! 0) (bad_price_heap ! 1)"
    by (rule cleaned_pure) (simp_all add: bad_price_heap_def)
  also have "\<dots> = run_pure (convert_date @ remove_missing_price @ convert_price @ feature_stages one_bucket)
       (example_joined example_cells example_dates [Str ''free'', NaN])"
    by (simp add: bad_price_heap_def example_cells_def example_dates_def example_clean_table)
  finally show ?thesis by (simp only: bad_price_features)
qed

lemma bad_price_joined:
  "joined (bad_price_heap ! 0) (bad_price_heap ! 1)
   = Inr (example_merged example_cells example_dates [Str ''free'', NaN])"
  by (simp add: bad_price_heap_def example_cells_def example_dates_def example_merge)

lemma free_is_no_float: "as_float_without ''$, '' (Str ''free'') = Inl ValueError"
  by code_simp



lemma columns_not_dropped:
  "''host_listings_count'' \<notin> set columns_to_drop" "''bathrooms'' \<notin> set columns_to_drop"
  "''bedrooms'' \<notin> set columns_to_drop" "''beds'' \<notin> set columns_to_drop"
  "''review_scores_rating'' \<notin> set columns_to_drop" "''review_scores_accuracy'' \<notin> set columns_to_drop"
  "''review_scores_cleanliness'' \<notin> set columns_to_drop" "''review_scores_checkin'' \<notin> set columns_to_drop"
  "''review_scores_communication'' \<notin> set columns_to_drop" "''review_scores_location'' \<notin> set columns_to_drop"
  "''review_scores_value'' \<notin> set columns_to_drop"
  by (simp_all add: columns_to_drop_def)

lemma collect_map_Inr: "collect (map (\<lambda>c. Inr (f c)) xs) = Inr (map f xs)"
  by (induction xs) simp_all

lemma get_host_since_year_kind: "get_host_since_year r = NaN \<or> (\<exists>x. get_host_since_year r = Num x)"
  by (auto simp: get_host_since_year_def host_since_body_def bindE_def split: sum.splits)

lemma fillna_no_NaN: "m \<noteq> NaN \<Longrightarrow> NaN \<notin> set (fillna m col)"
  by (auto simp: fillna_def)

lemma mean_numbers:
  assumes "\<forall>c\<in>set col. c = NaN \<or> (\<exists>x. c = Num x)" and "\<exists>c\<in>set col. c \<noteq> NaN"
  shows "\<exists>x. mean col = Inr (Num x)"
proof -
  let ?vals = "filter (\<lambda>c. c \<noteq> NaN) col"
  have "?vals \<noteq> []" using assms(2) by (auto simp: filter_empty_conv)
  moreover have "\<not> list_ex is_Str ?vals" "PInf \<notin> set ?vals" "NInf \<notin> set ?vals"
    using assms(1) by (auto simp: list_ex_iff is_Str_def)
  ultimately show ?thesis by (simp add: mean_def Let_def)
qed

lemma mean_NaN_iff:
  assumes "mean col = Inr m"
  shows "m = NaN \<longleftrightarrow> (\<forall>c\<in>set col. c = NaN) \<or> (PInf \<in> set col \<and> NInf \<in> set col)"
proof -
  have "filter (\<lambda>c. c \<noteq> NaN) col = [] \<longleftrightarrow> (\<forall>c\<in>set col. c = NaN)"
    by (auto simp: filter_empty_conv)
  with assms show ?thesis
    by (auto simp: mean_def Let_def split: if_splits)
qed

lemma host_since_year_column:
  assumes "cleaned qcut listings_df calendar_df h = Inr out"
    and "listings_df < length h" and "calendar_df < length h"
    and "joined (h ! listings_df) (h ! calendar_df) = Inr J"
    and "getcol J ''price_x'' = Inr prices" and "getcol J ''host_since'' = Inr since"
  shows "\<exists>m. mean (map (\<lambda>c. get_host_since_year (Map.empty(''host_since'' \<mapsto> c)))
                     (keep_cells (has_price prices) since)) = Inr m
           \<and> getcol out ''host_since_year''
             = Inr (fillna m (map (\<lambda>c. get_host_since_year (Map.empty(''host_since'' \<mapsto> c)))
                                  (keep_cells (has_price prices) since)))"
proof -
  let ?kept = "keep_cells (has_price prices) since"
  let ?years = "map (\<lambda>c. get_host_since_year (Map.empty(''host_since'' \<mapsto> c))) ?kept"
  from cleaned_stages [OF assms(1-4)] obtain D where
    front: "run_pure price_stages J = Inr D" and feat: "run_pure (feature_stages qcut) D = Inr out"
    by blast
  have "tall (nrows J) J" using assms(4) by (rule joined_tall)
  from price_stages_effect [OF this front] obtain n where tallD: "tall n D"
    by auto
  have Ds: "map_of D ''host_since'' = Some ?kept"
    using price_stages_keeps [OF front, of "''host_since''" prices] assms(5,6)
    by (simp add: getcol_Inr date_not_dropped)
  from feat obtain D1 D2 where
    s1: "assign_apply ''host_since_year'' (\<lambda>r. Inr (get_host_since_year r)) D = Inr D1"
    and s2: "fillna_mean ''host_since_year'' D1 = Inr D2"
    and s3: "run_pure ((Fresh, drop_columns [''host_since'']) # convert_host_response_rate qcut
               @ fill_host_listings_count @ split_host_verifications @ fill_rooms_with_mode
               @ split_amenities @ extra_people_binary @ fill_review_scores) D2 = Inr out"
    by (simp add: feature_stages_def convert_host_since_def bindE_Inr_iff) blast
  have "df_apply (\<lambda>r. Inr (get_host_since_year r)) D
        = collect (map (\<lambda>c. Inr (get_host_since_year (Map.empty(''host_since'' \<mapsto> c)))) ?kept)"
    by (rule df_apply_cell [OF tallD Ds])
       (simp add: get_host_since_year_def host_since_body_def getitem_def)
  with s1 have D1: "D1 = set_column ''host_since_year'' ?years D"
    by (simp add: assign_apply_def collect_map_Inr)
  from s2 obtain m where m: "mean ?years = Inr m"
    and D2: "D2 = set_column ''host_since_year'' (fillna m ?years) D1"
    by (auto simp: fillna_mean_def bindE_Inr_iff getcol_Inr D1 map_of_set_column)
  have "list_all (\<lambda>st. keeps ''host_since_year'' (snd st))
          ((Fresh, drop_columns [''host_since'']) # convert_host_response_rate qcut
               @ fill_host_listings_count @ split_host_verifications @ fill_rooms_with_mode
               @ split_amenities @ extra_people_binary @ fill_review_scores)"
    by (simp add: convert_host_response_rate_def fill_host_listings_count_def
          split_host_verifications_def fill_rooms_with_mode_def split_amenities_def
          extra_people_binary_def fill_review_scores_def review_scores_columns_def keeps_rules)
  from run_pure_keeps [OF this s3] have "map_of out ''host_since_year'' = Some (fillna m ?years)"
    by (simp add: D2 map_of_set_column)
  with m show ?thesis by (auto simp: getcol_Inr)
qed


lemma example_since_column:
  "getcol (example_merged example_cells example_dates example_prices) ''host_since''
   = Inr [Str ''2011-08-11'', Str ''2011-08-11'']"
  by code_simp

lemma example_years:
  "map (\<lambda>c. get_host_since_year (Map.empty(''host_since'' \<mapsto> c)))
       (keep_cells (has_price example_prices) [Str ''2011-08-11'', Str ''2011-08-11''])
   = [Num 2011]"
  by code_simp

lemma unknown_since:
  "host_since_body (Map.empty(''host_since'' \<mapsto> Str ''unknown'')) = Inl ValueError"
  by code_simp


lemma bad_date_features:
  "run_pure (convert_date @ remove_missing_price @ convert_price @ feature_stages one_bucket)
     (example_joined example_cells [Str ''07/04/2016'', Str ''2016-07-05''] example_prices)
   = Inl IndexError"
  by code_simp

lemma bad_rate_features:
  "run_pure (convert_date @ remove_missing_price @ convert_price @ feature_stages one_bucket)
     (example_joined (example_cells[2 := Str ''within an hour'']) example_dates example_prices)
   = Inl ValueError"
  by code_simp


section \<open>Columns filled by one stage\<close>

lemma changed_once_here:
  "list_all (\<lambda>st. keeps X (snd st)) post \<Longrightarrow> changed_once s X (s # post)"
  unfolding changed_once_def by (intro exI [of _ "[]"] exI [of _ post]) simp

lemma changed_once_later:
  assumes "keeps X (snd st)" and "changed_once s X sts"
  shows "changed_once s X (st # sts)"
proof -
  from assms(2) obtain pre post where "sts = pre @ [s] @ post"
    "list_all (\<lambda>st. keeps X (snd st)) pre" "list_all (\<lambda>st. keeps X (snd st)) post"
    unfolding changed_once_def by blast
  with assms(1) show ?thesis
    unfolding changed_once_def by (intro exI [of _ "st # pre"] exI [of _ post]) simp
qed

lemma changed_once_run:
  assumes "changed_once s X sts" and "run_pure sts D = Inr out"
  shows "\<exists>D1 D2. map_of D1 X = map_of D X \<and> snd s D1 = Inr D2 \<and> map_of out X = map_of D2 X"
proof -
  from assms(1) obtain pre post where sts: "sts = pre @ [s] @ post"
    and pre: "list_all (\<lambda>st. keeps X (snd st)) pre"
    and post: "list_all (\<lambda>st. keeps X (snd st)) post"
    unfolding changed_once_def by blast
  from assms(2) obtain D1 D2 where r1: "run_pure pre D = Inr D1" and r2: "snd s D1 = Inr D2"
    and r3: "run_pure post D2 = Inr out"
    by (auto simp: sts run_pure_append bindE_Inr_iff)
  from run_pure_keeps [OF pre r1] run_pure_keeps [OF post r3] r2 show ?thesis by blast
qed

lemmas stage_defs =
  convert_host_since_def convert_host_response_rate_def fill_host_listings_count_def
  split_host_verifications_def fill_rooms_with_mode_def split_amenities_def
  extra_people_binary_def fill_review_scores_def review_scores_columns_def

lemma mean_columns_changed_once:
  assumes "X \<in> set mean_columns"
  shows "changed_once (InPlace, fillna_mean X) X (feature_stages qcut)"
proof -
  from assms have "X = ''host_listings_count'' \<or> X = ''review_scores_rating''
      \<or> X = ''review_scores_accuracy'' \<or> X = ''review_scores_cleanliness''
      \<or> X = ''review_scores_checkin'' \<or> X = ''review_scores_communication''
      \<or> X = ''review_scores_location'' \<or> X = ''review_scores_value''"
    by (simp add: mean_columns_def review_scores_columns_def)
  then show ?thesis
    by (elim disjE)
       (simp_all add: feature_stages_def stage_defs changed_once_here changed_once_later keeps_rules)
qed

lemma mode_columns_changed_once:
  assumes "X \<in> set mode_columns"
  shows "changed_once (InPlace, fillna_mode X) X (feature_stages qcut)"
proof -
  from assms have "X = ''bathrooms'' \<or> X = ''bedrooms'' \<or> X = ''beds''"
    by (simp add: mode_columns_def)
  then show ?thesis
    by (elim disjE)
       (simp_all add: feature_stages_def stage_defs changed_once_here changed_once_later keeps_rules)
qed


lemma mean_columns_kept:
  assumes "X \<in> set mean_columns \<or> X \<in> set mode_columns"
  shows "X \<notin> set columns_to_drop \<and> X \<notin> {''month'', ''year'', ''date'', ''price'', ''price_x''}"
proof -
  from assms have "X \<in> {''host_listings_count'', ''review_scores_rating'',
      ''review_scores_accuracy'', ''review_scores_cleanliness'', ''review_scores_checkin'',
      ''review_scores_communication'', ''review_scores_location'', ''review_scores_value'',
      ''bathrooms'', ''bedrooms'', ''beds''}"
    by (auto simp: mean_columns_def mode_columns_def review_scores_columns_def)
  then show ?thesis
    using columns_not_dropped by auto
qed

lemma foldl_pick_mem: "foldl (\<lambda>m x. if P x m then x else m) c cs \<in> set (c # cs)"
  by (induction cs arbitrary: c) (simp_all, fastforce)

lemma mode0_not_NaN:
  assumes "mode0 col = Inr m"
  shows "m \<noteq> NaN"
proof -
  let ?vals = "filter (\<lambda>c. c \<noteq> NaN) col"
  let ?top = "foldl max 0 (map (count_list ?vals) ?vals)"
  from assms obtain c cs where
    cands: "filter (\<lambda>v. count_list ?vals v = ?top) (unique ?vals) = c # cs"
    and m: "m = foldl (\<lambda>m x. if cell_less x m then x else m) c cs"
    by (auto simp: mode0_def Let_def split: list.splits)
  have "m \<in> set (c # cs)" unfolding m by (rule foldl_pick_mem)
  also have "set (c # cs) \<subseteq> set ?vals"
    unfolding cands [symmetric] by auto
  finally show ?thesis by auto
qed

lemma filled_column:
  assumes "cleaned qcut listings_df calendar_df h = Inr out"
    and "listings_df < length h" and "calendar_df < length h"
    and "joined (h ! listings_df) (h ! calendar_df) = Inr J"
    and "getcol J ''price_x'' = Inr prices"
    and X: "X \<notin> set columns_to_drop \<and> X \<notin> {''month'', ''year'', ''date'', ''price'', ''price_x''}"
    and once: "changed_once (InPlace, f) X (feature_stages qcut)"
  shows "\<exists>D1 D2. map_of D1 X = map_option (keep_cells (has_price prices)) (map_of J X)
                 \<and> f D1 = Inr D2 \<and> map_of out X = map_of D2 X"
proof -
  from cleaned_stages [OF assms(1-4)] obtain D where
    front: "run_pure price_stages J = Inr D" and feat: "run_pure (feature_stages qcut) D = Inr out"
    by blast
  have "map_of D X = map_option (keep_cells (has_price prices)) (map_of J X)"
    using price_stages_keeps [OF front, of X prices] X assms(5) by (simp add: getcol_Inr)
  with changed_once_run [OF once feat] show ?thesis by auto
qed




lemma no_rating_features:
  "bindE (run_pure (convert_date @ remove_missing_price @ convert_price @ feature_stages one_bucket)
            (example_joined (example_cells[10 := NaN]) example_dates example_prices))
         (\<lambda>out. getcol out ''review_scores_rating'') = Inr [NaN]"
  by code_simp


end
